theory Spec2Isabelle
  imports Complex_Main "HOL-Library.Char_ord" "HOL-Library.List_Lexorder" "HOL-Library.AList"
    "HOL-Library.Multiset" "HOL-Library.Log_Nat"
begin

section \<open>JavaScript values\<close>

text \<open>
  The job payload, the catalog response body and the extension records are values decoded
  from JSON; the program reads them untyped and checks their shape at run time. A value is
  a tree: a number is the rational value of a finite IEEE double (arithmetic on numbers
  rounds, see \<open>double_plus\<close> below), strings are lists of characters (one character per
  code unit), an object is the list of its own properties, read by the first entry of a
  key.
  \<open>JUndefined\<close> is what reading an absent property gives. Values decoded from JSON share
  no sub-structure, so an in-place update of an array is the same value with that
  array replaced.
\<close>

datatype jsvalue =
    JUndefined
  | JNull
  | JBool bool
  | JNumber rat
  | JString string
  | JArray "jsvalue list"
  | JObject "(string \<times> jsvalue) list"

text \<open>
  Modelled from the spec: the module \<open>../errors\<close> (classes \<open>TransientJobError\<close> and
  \<open>PermanentJobError\<close> with their \<open>is\<close> tests) is not among the sources. Section 4.3 of
  the specification gives a closed two-member taxonomy, each member carrying a message;
  every other error is unclassified. The unclassified errors this program can meet are the
  \<open>TypeError\<close> of reading a property of \<open>undefined\<close>/\<open>null\<close> or calling what is not a
  function, a rejected \<open>fetch\<close> and a rejected \<open>response.json()\<close>.
\<close>

datatype error =
    TransientJobError string
  | PermanentJobError string
  | TypeError
  | FetchRejected
  | JsonRejected

fun TransientJobError_is :: "error \<Rightarrow> bool" where
  "TransientJobError_is (TransientJobError m) = True"
| "TransientJobError_is e = False"

fun PermanentJobError_is :: "error \<Rightarrow> bool" where
  "PermanentJobError_is (PermanentJobError m) = True"
| "PermanentJobError_is e = False"

fun message :: "error \<Rightarrow> string" where
  "message (TransientJobError m) = m"
| "message (PermanentJobError m) = m"
| "message e = []"

subsection \<open>Arithmetic on numbers\<close>

text \<open>
  JavaScript numbers are IEEE 754 doubles, and \<open>a + b\<close> is the double nearest to the exact
  sum, a tie going to the even significand. \<open>binary_exponent x\<close> is the integer part of
  the binary logarithm of the magnitude of \<open>x\<close>; a double with that exponent is a
  multiple of \<open>2\<close> to the power \<open>binary_exponent x - 52\<close>, and of \<open>2\<close> to the power
  \<open>-1074\<close> in the subnormal range. \<open>to_double x\<close> is the nearest such multiple. (A sum
  beyond the largest double is \<open>Infinity\<close> in JavaScript; no value of this model holds
  it, and the sum of a double and \<open>1\<close> never is.)
\<close>

definition pow2 :: "int \<Rightarrow> rat" where
  "pow2 k = (if 0 \<le> k then 2 ^ nat k else 1 / 2 ^ nat (- k))"

definition binary_exponent :: "rat \<Rightarrow> int" where
  "binary_exponent x =
     (case quotient_of \<bar>x\<bar> of
        (p, q) \<Rightarrow> (let d = bitlen p - bitlen q in if pow2 d \<le> \<bar>x\<bar> then d else d - 1))"

definition round_half_even :: "rat \<Rightarrow> int" where
  "round_half_even y =
     (let f = \<lfloor>y\<rfloor>; r = y - of_int f
      in if r < 1 / 2 then f else if 1 / 2 < r then f + 1 else if even f then f else f + 1)"

definition to_double :: "rat \<Rightarrow> rat" where
  "to_double x =
     (if x = 0 then 0
      else (let k = max (binary_exponent x - 52) (- 1074)
            in of_int (round_half_even (x / pow2 k)) * pow2 k))"

definition double_plus :: "rat \<Rightarrow> rat \<Rightarrow> rat" where
  "double_plus a b = to_double (a + b)"

subsection \<open>Reading properties\<close>

text \<open>
  \<open>member v k\<close> is \<open>v.k\<close> for a value that is neither \<open>undefined\<close> nor \<open>null\<close>, for the
  property names this program reads (none of them is inherited from a prototype):
  an own property of an object, the \<open>length\<close> of an array or a string, \<open>undefined\<close>
  otherwise. \<open>index0 v\<close> is \<open>v[0]\<close>. \<open>get\<close> and \<open>get0\<close> add the \<open>TypeError\<close> that
  JavaScript raises on \<open>undefined\<close> and \<open>null\<close>.
\<close>

fun member :: "jsvalue \<Rightarrow> string \<Rightarrow> jsvalue" where
  "member (JObject fs) k = (case map_of fs k of Some v \<Rightarrow> v | None \<Rightarrow> JUndefined)"
| "member (JArray xs) k = (if k = ''length'' then JNumber (of_nat (length xs)) else JUndefined)"
| "member (JString s) k = (if k = ''length'' then JNumber (of_nat (length s)) else JUndefined)"
| "member v k = JUndefined"

fun index0 :: "jsvalue \<Rightarrow> jsvalue" where
  "index0 (JArray xs) = (case xs of [] \<Rightarrow> JUndefined | x # rest \<Rightarrow> x)"
| "index0 (JString s) = (case s of [] \<Rightarrow> JUndefined | c # rest \<Rightarrow> JString [c])"
| "index0 (JObject fs) = member (JObject fs) ''0''"
| "index0 v = JUndefined"

fun nullish :: "jsvalue \<Rightarrow> bool" where
  "nullish JUndefined = True"
| "nullish JNull = True"
| "nullish v = False"

definition get :: "jsvalue \<Rightarrow> string \<Rightarrow> error + jsvalue" where
  "get v k = (if nullish v then Inl TypeError else Inr (member v k))"

definition get0 :: "jsvalue \<Rightarrow> error + jsvalue" where
  "get0 v = (if nullish v then Inl TypeError else Inr (index0 v))"

text \<open>
  Replacing the array a property of an object refers to: the effect, on the object, of
  sorting that array in place.
\<close>

fun put :: "jsvalue \<Rightarrow> string \<Rightarrow> jsvalue \<Rightarrow> jsvalue" where
  "put (JObject fs) k x = JObject (AList.update k x fs)"
| "put v k x = v"

text \<open>
  A value that a guard has narrowed to \<open>string\<close> or \<open>number\<close>, read at that type. The
  second equations are never reached in this program: see \<open>guard_String\<close> and
  \<open>guard_Number\<close> below.
\<close>

fun the_string :: "jsvalue \<Rightarrow> string" where
  "the_string (JString s) = s"
| "the_string v = []"

fun the_number :: "jsvalue \<Rightarrow> rat" where
  "the_number (JNumber n) = n"
| "the_number v = 0"

section \<open>Runtime types (src/types/runtime.ts)\<close>

text \<open>
  The shapes are built from the combinators of the runtypes library. \<open>guard\<close> is the
  library's test: \<open>Number\<close> and \<open>String\<close> test \<open>typeof\<close>; \<open>Array t\<close> wants an array
  whose elements all pass \<open>t\<close>; \<open>Record fields\<close> wants a value other than \<open>null\<close> and
  \<open>undefined\<close> whose every listed field passes, where the field of a value that is not
  an object is \<open>undefined\<close>. Fields that are not listed are not looked at.
\<close>

datatype runtype =
    Number
  | String
  | Array runtype
  | Record "(string \<times> runtype) list"

fun field :: "jsvalue \<Rightarrow> string \<Rightarrow> jsvalue" where
  "field (JObject fs) k = member (JObject fs) k"
| "field (JArray xs) k = member (JArray xs) k"
| "field v k = JUndefined"

fun guard :: "runtype \<Rightarrow> jsvalue \<Rightarrow> bool" where
  "guard Number v = (case v of JNumber n \<Rightarrow> True | _ \<Rightarrow> False)"
| "guard String v = (case v of JString s \<Rightarrow> True | _ \<Rightarrow> False)"
| "guard (Array t) v = (case v of JArray xs \<Rightarrow> list_all (guard t) xs | _ \<Rightarrow> False)"
| "guard (Record fields) v =
     (\<not> nullish v \<and> list_all (\<lambda>f. guard (snd f) (field v (fst f))) fields)"

definition PublisherRuntime :: runtype where
  "PublisherRuntime = Record [(''publisherName'', String)]"

definition PropertyRuntime :: runtype where
  "PropertyRuntime = Record [(''key'', String), (''value'', String)]"

definition VersionRuntime :: runtype where
  "VersionRuntime =
     Record [(''lastUpdated'', String), (''properties'', Array PropertyRuntime)]"

definition StatisticRuntime :: runtype where
  "StatisticRuntime = Record [(''statisticName'', String), (''value'', Number)]"

definition ExtensionRuntime :: runtype where
  "ExtensionRuntime =
     Record [(''extensionName'', String),
             (''publisher'', PublisherRuntime),
             (''versions'', Array VersionRuntime),
             (''statistics'', Array StatisticRuntime)]"

definition ScrapeThemesPayloadRuntime :: runtype where
  "ScrapeThemesPayloadRuntime = Record [(''page'', Number)]"

text \<open>
  fetchThemes.ts imports the runtype of its payload from runtime.ts under the name
  \<open>FetchThemesPayloadRuntime\<close>; runtime.ts declares the runtype of the page payload as
  \<open>ScrapeThemesPayloadRuntime\<close>, and no other runtype with a \<open>page\<close> field.
\<close>

definition FetchThemesPayloadRuntime :: runtype where
  "FetchThemesPayloadRuntime = ScrapeThemesPayloadRuntime"

text \<open>
  The payload schema in the words of the specification, for comparison with the guard:
  \<open>FetchPagePayload { page: integer >= 1 }\<close>.
\<close>

definition spec_FetchPagePayload :: "jsvalue \<Rightarrow> bool" where
  "spec_FetchPagePayload v =
     (case field v ''page'' of
        JNumber n \<Rightarrow> n = of_int (floor n) \<and> 1 \<le> n
      | _ \<Rightarrow> False)"

section \<open>The platform and the services\<close>

text \<open>
  Three functions of the JavaScript runtime are parameters of the model:
  \<open>String.prototype.localeCompare\<close> (its order depends on the collation data of the
  runtime), \<open>JSON.stringify\<close>, and the conversion to a string of a template literal.
\<close>

record platform =
  localeCompare :: "string \<Rightarrow> string \<Rightarrow> int"
  JSON_stringify :: "jsvalue \<Rightarrow> string"
  ToString :: "jsvalue \<Rightarrow> string"

text \<open>
  \<open>Array.prototype.sort\<close> with a comparator: \<open>x\<close> stays before \<open>y\<close> unless the
  comparator is positive on them, and equal elements keep their order (the sort is
  stable). \<open>Array.prototype.find\<close> is \<open>List.find\<close>.
\<close>

fun insort_cmp :: "('a \<Rightarrow> 'a \<Rightarrow> int) \<Rightarrow> 'a \<Rightarrow> 'a list \<Rightarrow> 'a list" where
  "insort_cmp c x [] = [x]"
| "insort_cmp c x (y # ys) = (if c x y \<le> 0 then x # y # ys else y # insort_cmp c x ys)"

definition Array_sort :: "('a \<Rightarrow> 'a \<Rightarrow> int) \<Rightarrow> 'a list \<Rightarrow> 'a list" where
  "Array_sort c xs = foldr (insort_cmp c) xs []"

text \<open>
  A job message, and what the injected services answer. The queue is the backend's: its
  operations are recorded as events and return normally. \<open>receive\<close> is the message the
  queue hands out, if any. \<open>fetch\<close> answers a catalog request, which varies with the page
  number only (URL, headers, filters, page size and flags are constants): the request is
  rejected, or there is a response, whose \<open>json()\<close> gives a value or is rejected.
\<close>

record job =
  receiptHandle :: string
  payload :: jsvalue

datatype body = Json jsvalue | NotJson

record response =
  ok :: bool
  statusText :: string
  json :: body

datatype fetched = Rejected | Response response

record services =
  receive :: "job option"
  fetch :: "rat \<Rightarrow> fetched"

text \<open>
  What an invocation does, in order: the calls of the queue, of \<open>fetch\<close> and of the logger,
  and the call of \<open>extractRepositories\<close> (\<open>Extract\<close>, with the list it is given).
\<close>

datatype event =
    Receive
  | Log string
  | LogValue jsvalue
  | Fetch rat
  | Create jsvalue
  | Notify
  | Extract jsvalue
  | Succeed job
  | Fail job error
  | Retry job

section \<open>src/backend/jobs/fetchThemes.ts\<close>

definition GITHUB_PROPERTY_NAME :: string where
  "GITHUB_PROPERTY_NAME = ''Microsoft.VisualStudio.Services.Links.GitHub''"

subsection \<open>fetchMarketplaceThemes\<close>

text \<open>\<open>data.results[0].extensions\<close>, with the \<open>TypeError\<close> of each of the three reads.\<close>

definition results0_extensions :: "jsvalue \<Rightarrow> error + jsvalue" where
  "results0_extensions data =
     (case get data ''results'' of
        Inl e \<Rightarrow> Inl e
      | Inr results \<Rightarrow>
          (case get0 results of
             Inl e \<Rightarrow> Inl e
           | Inr first \<Rightarrow> get first ''extensions''))"

definition fetchMarketplaceThemes ::
  "platform \<Rightarrow> services \<Rightarrow> rat \<Rightarrow> event list \<times> (error + jsvalue)" where
  "fetchMarketplaceThemes pf sv page =
     (case fetch sv page of
        Rejected \<Rightarrow> ([Fetch page], Inl FetchRejected)
      | Response r \<Rightarrow>
          if \<not> ok r then
            ([Fetch page], Inl (TransientJobError (''Bad response: '' @ statusText r)))
          else
            (case json r of
               NotJson \<Rightarrow> ([Fetch page], Inl JsonRejected)
             | Json data \<Rightarrow>
                 (case results0_extensions data of
                    Inl e \<Rightarrow>
                      ([Fetch page],
                       Inl (TransientJobError
                              (''Invalid response data: '' @ JSON_stringify pf data)))
                  | Inr extensions \<Rightarrow> ([Fetch page], Inr extensions))))"

subsection \<open>extractRepositories\<close>

text \<open>
  The body of the \<open>forEach\<close> callback on one theme (\<open>extract_theme\<close>): the theme as the
  callback leaves it (its \<open>versions\<close> array sorted in place when the guard passes), the
  lines logged, and the URLs pushed or the error thrown.
\<close>

definition lastUpdated :: "jsvalue \<Rightarrow> string" where
  "lastUpdated version = the_string (member version ''lastUpdated'')"

text \<open>The comparator \<open>(a, b) => b.lastUpdated.localeCompare(a.lastUpdated)\<close>.\<close>

definition by_lastUpdated_desc :: "platform \<Rightarrow> jsvalue \<Rightarrow> jsvalue \<Rightarrow> int" where
  "by_lastUpdated_desc pf a b = localeCompare pf (lastUpdated b) (lastUpdated a)"

text \<open>
  The second half of the callback, from \<open>latestVersion.properties.find\<close> on: the lines
  logged, and the URLs pushed or the error thrown. \<open>theme\<close> is the theme after the sort.
\<close>

definition find_repository ::
  "platform \<Rightarrow> jsvalue \<Rightarrow> jsvalue \<Rightarrow> string list \<times> (error + jsvalue list)" where
  "find_repository pf theme latestVersion =
     (case get latestVersion ''properties'' of
        Inl e \<Rightarrow> ([], Inl e)
      | Inr (JArray properties) \<Rightarrow>
          (case find (\<lambda>prop. member prop ''key'' = JString GITHUB_PROPERTY_NAME)
                     properties of
             Some repoUrlProp \<Rightarrow> ([], Inr [member repoUrlProp ''value''])
           | None \<Rightarrow>
               ([''Missing property '' @ [CHR 0x27] @ GITHUB_PROPERTY_NAME @
                   [CHR 0x27] @ '': '' @ [CHR 0x0A] @
                   JSON_stringify pf theme @ [CHR 0x0A]],
                Inr []))
      | Inr other \<Rightarrow> ([], Inl TypeError))"

definition extract_theme ::
  "platform \<Rightarrow> jsvalue \<Rightarrow> jsvalue \<times> string list \<times> (error + jsvalue list)" where
  "extract_theme pf theme =
     (if guard ExtensionRuntime theme then
        (case member theme ''versions'' of
           JArray versions \<Rightarrow>
             (let sorted = Array_sort (by_lastUpdated_desc pf) versions;
                  theme' = put theme ''versions'' (JArray sorted);
                  latestVersion = index0 (JArray sorted)
              in (theme', find_repository pf theme' latestVersion))
         | other \<Rightarrow> (theme, [], Inl TypeError))
      else (theme, [''Invalid theme: '' @ JSON_stringify pf theme], Inr []))"

text \<open>
  \<open>themes.forEach\<close>: the themes already visited (as left), the URLs and the log lines so
  far are the state; an error thrown by the callback ends the loop, the themes not yet
  visited staying as they were.
\<close>

fun forEach_theme ::
  "platform \<Rightarrow> jsvalue list \<Rightarrow> jsvalue list \<times> jsvalue list \<times> string list \<Rightarrow>
   (jsvalue list \<times> jsvalue list \<times> string list) \<times> error option" where
  "forEach_theme pf [] s = (s, None)"
| "forEach_theme pf (theme # rest) (visited, repos, logs) =
     (case extract_theme pf theme of
        (theme', lines, Inl e) \<Rightarrow> ((visited @ theme' # rest, repos, logs @ lines), Some e)
      | (theme', lines, Inr urls) \<Rightarrow>
          forEach_theme pf rest (visited @ [theme'], repos @ urls, logs @ lines))"

text \<open>
  \<open>extractRepositories\<close> gives the caller's \<open>themes\<close> as the call leaves it, the lines
  logged, and the URLs returned or the error thrown. Calling \<open>forEach\<close> on a value that
  is not an array is a \<open>TypeError\<close>.
\<close>

definition extractRepositories ::
  "platform \<Rightarrow> jsvalue \<Rightarrow> jsvalue \<times> string list \<times> (error + jsvalue list)" where
  "extractRepositories pf themes =
     (case themes of
        JArray ts \<Rightarrow>
          (case forEach_theme pf ts ([], [], []) of
             ((ts', repos, logs), None) \<Rightarrow> (JArray ts', logs, Inr repos)
           | ((ts', repos, logs), Some e) \<Rightarrow> (JArray ts', logs, Inl e))
      | other \<Rightarrow> (themes, [], Inl TypeError))"

subsection \<open>run\<close>

text \<open>
  The \<open>try\<close> block in two parts, each giving the events it issues and whether it ends or
  throws. \<open>continue\<close> is the part after the test for an empty page: queue the next page
  (\<open>page + 1\<close> is a sum of doubles), notify, extract, and close the job. \<open>process\<close> is
  the block from its first line.
\<close>

definition continue :: "platform \<Rightarrow> job \<Rightarrow> rat \<Rightarrow> jsvalue \<Rightarrow> event list \<times> (error + unit)" where
  "continue pf j page themes =
     (case extractRepositories pf themes of
        (themes', lines, Inl e) \<Rightarrow>
          ([Create (JObject [(''page'', JNumber (double_plus page 1))]), Notify, Extract themes] @
           map Log lines,
           Inl e)
      | (themes', lines, Inr repositories) \<Rightarrow>
          if repositories = [] then
            ([Create (JObject [(''page'', JNumber (double_plus page 1))]), Notify, Extract themes] @
             map Log lines @ [Log ''No repositories to process for page.''],
             Inr ())
          else
            ([Create (JObject [(''page'', JNumber (double_plus page 1))]), Notify, Extract themes] @
             map Log lines @
             [LogValue (JArray repositories),
              Succeed j,
              Log ([CHR 0x0A] @ ''      Page: '' @ ToString pf (JNumber page) @
                   [CHR 0x0A] @ ''      Themes found: '' @
                   ToString pf (member themes' ''length'') @
                   [CHR 0x0A] @ ''      Repositories queued: '' @
                   ToString pf (JNumber (of_nat (length repositories))) @
                   [CHR 0x0A] @ ''    '')],
             Inr ()))"

definition process :: "platform \<Rightarrow> services \<Rightarrow> job \<Rightarrow> event list \<times> (error + unit)" where
  "process pf sv j =
     (if \<not> guard FetchThemesPayloadRuntime (payload j) then
        ([], Inl (PermanentJobError ''Invalid job payload.''))
      else
        (let page = the_number (member (payload j) ''page'') in
         case fetchMarketplaceThemes pf sv page of
           (fetching, Inl e) \<Rightarrow> (fetching, Inl e)
         | (fetching, Inr themes) \<Rightarrow>
             (case get themes ''length'' of
                Inl e \<Rightarrow> (fetching, Inl e)
              | Inr len \<Rightarrow>
                  if len = JNumber 0 then
                    (fetching @ [Log ''No more pages to process.'', Succeed j], Inr ())
                  else
                    (case continue pf j page themes of
                       (events, result) \<Rightarrow> (fetching @ events, result)))))"

text \<open>
  The \<open>catch\<close> block: the events it issues, and the error it throws again, if any.
\<close>

definition rescue :: "job \<Rightarrow> error \<Rightarrow> event list \<times> error option" where
  "rescue j err =
     (if TransientJobError_is err then ([Log (message err), Retry j], None)
      else if PermanentJobError_is err then ([Log (message err), Fail j err], None)
      else ([Log ''Unexpected Error.'', Fail j err], Some err))"

text \<open>What \<open>run\<close> does with a received job before the \<open>try\<close> block.\<close>

definition preamble :: "platform \<Rightarrow> job \<Rightarrow> event list" where
  "preamble pf j =
     [Receive,
      Log ''Proccessing fetchThemes job...'',
      Log (''Receipt Handle: '' @ receiptHandle j),
      Log (''Payload: '' @ JSON_stringify pf (payload j))]"

text \<open>
  One invocation: the events in order, and the error the returned promise is rejected
  with (\<open>None\<close> when it resolves).
\<close>

definition run :: "platform \<Rightarrow> services \<Rightarrow> event list \<times> error option" where
  "run pf sv =
     (case receive sv of
        None \<Rightarrow> ([Receive, Log ''No more jobs to process.''], None)
      | Some j \<Rightarrow>
          (case process pf sv j of
             (events, Inr u) \<Rightarrow> (preamble pf j @ events, None)
           | (events, Inl err) \<Rightarrow>
               (case rescue j err of
                  (closing, thrown) \<Rightarrow> (preamble pf j @ events @ closing, thrown))))"

text \<open>The acknowledgements of a job in a sequence of events.\<close>

fun acknowledges :: "job \<Rightarrow> event \<Rightarrow> bool" where
  "acknowledges j (Succeed j') = (j' = j)"
| "acknowledges j (Fail j' e) = (j' = j)"
| "acknowledges j (Retry j') = (j' = j)"
| "acknowledges j ev = False"

definition acknowledgements :: "job \<Rightarrow> event list \<Rightarrow> event list" where
  "acknowledgements j evs = filter (acknowledges j) evs"

section \<open>Notions the statements use\<close>

text \<open>
  \<open>localeCompare\<close> orders the given strings as the lexicographic order of their code units
  does. (Timestamps of one format, as ISO-8601 in UTC, are ordered so by the usual collations;
  arbitrary strings need not be.)
\<close>

definition collates_lexicographically :: "platform \<Rightarrow> string list \<Rightarrow> bool" where
  "collates_lexicographically pf xs =
     list_all (\<lambda>a. list_all (\<lambda>b. (localeCompare pf a b \<le> 0) = (a \<le> b)) xs) xs"

text \<open>
  \<open>localeCompare\<close> is a consistent comparison on the given strings, as ECMAScript
  requires of it: any two of them are comparable, and the order is transitive.
\<close>

definition consistent_comparison :: "platform \<Rightarrow> string list \<Rightarrow> bool" where
  "consistent_comparison pf xs =
     list_all (\<lambda>a. list_all (\<lambda>b.
         (localeCompare pf a b \<le> 0 \<or> localeCompare pf b a \<le> 0) \<and>
         list_all (\<lambda>c. localeCompare pf a b \<le> 0 \<and> localeCompare pf b c \<le> 0 \<longrightarrow>
                        localeCompare pf a c \<le> 0) xs) xs) xs"

text \<open>
  An extension record that passes the guard and whose latest version (the first after the
  sort) has no property under the fixed repository-link key.
\<close>

definition no_repository_link :: "platform \<Rightarrow> jsvalue \<Rightarrow> bool" where
  "no_repository_link pf theme =
     (guard ExtensionRuntime theme \<and>
      (case member theme ''versions'' of
         JArray versions \<Rightarrow>
           (case Array_sort (by_lastUpdated_desc pf) versions of
              [] \<Rightarrow> False
            | latest # older \<Rightarrow>
                (case member latest ''properties'' of
                   JArray properties \<Rightarrow>
                     find (\<lambda>prop. member prop ''key'' = JString GITHUB_PROPERTY_NAME)
                          properties = None
                 | other \<Rightarrow> False))
       | other \<Rightarrow> False))"

text \<open>What the loop gives back to its caller: the URLs, or the error thrown.\<close>

definition outcome ::
  "(jsvalue list \<times> jsvalue list \<times> string list) \<times> error option \<Rightarrow> error + jsvalue list" where
  "outcome r = (case r of ((visited, repos, logs), None) \<Rightarrow> Inr repos | (s, Some e) \<Rightarrow> Inl e)"

text \<open>
  The invocations in which a non-empty page gives no URL: the payload passes the guard,
  the fetched value has a \<open>length\<close> other than 0, and the extraction returns no URL.
\<close>

definition extracts_nothing :: "platform \<Rightarrow> services \<Rightarrow> job \<Rightarrow> bool" where
  "extracts_nothing pf sv j =
     (guard FetchThemesPayloadRuntime (payload j) \<and>
      (case snd (fetchMarketplaceThemes pf sv (the_number (member (payload j) ''page''))) of
         Inl e \<Rightarrow> False
       | Inr themes \<Rightarrow>
           (case get themes ''length'' of
              Inl e \<Rightarrow> False
            | Inr len \<Rightarrow>
                len \<noteq> JNumber 0 \<and> snd (snd (extractRepositories pf themes)) = Inr [])))"

section \<open>Example inputs\<close>

text \<open>
  A platform whose \<open>localeCompare\<close> is the lexicographic order of the code units, with
  stand-ins for the two conversions to text (no statement below depends on what they
  print).
\<close>

definition lexicographic :: platform where
  "lexicographic =
     \<lparr>localeCompare = (\<lambda>a b. if a < b then - 1 else if a = b then 0 else 1),
      JSON_stringify = (\<lambda>v. ''{}''),
      ToString = (\<lambda>v. ''0'')\<rparr>"

definition job_of :: "jsvalue \<Rightarrow> job" where
  "job_of p = \<lparr>receiptHandle = ''r1'', payload = p\<rparr>"

definition page_payload :: "rat \<Rightarrow> jsvalue" where
  "page_payload n = JObject [(''page'', JNumber n)]"

text \<open>A catalog body of the expected shape around a value for \<open>extensions\<close>.\<close>

definition catalog :: "jsvalue \<Rightarrow> jsvalue" where
  "catalog extensions = JObject [(''results'', JArray [JObject [(''extensions'', extensions)]])]"

text \<open>Services that hand out one job and answer every request 200 with one body.\<close>

definition serving :: "job \<Rightarrow> jsvalue \<Rightarrow> services" where
  "serving j data =
     \<lparr>receive = Some j,
      fetch = (\<lambda>page. Response \<lparr>ok = True, statusText = ''OK'', json = Json data\<rparr>)\<rparr>"

definition failing :: "job \<Rightarrow> string \<Rightarrow> services" where
  "failing j status =
     \<lparr>receive = Some j,
      fetch = (\<lambda>page. Response \<lparr>ok = False, statusText = status, json = NotJson\<rparr>)\<rparr>"

definition version :: "string \<Rightarrow> jsvalue list \<Rightarrow> jsvalue" where
  "version updated props =
     JObject [(''lastUpdated'', JString updated), (''properties'', JArray props)]"

definition github_link :: "string \<Rightarrow> jsvalue" where
  "github_link url = JObject [(''key'', JString GITHUB_PROPERTY_NAME), (''value'', JString url)]"

definition extension :: "string \<Rightarrow> jsvalue list \<Rightarrow> jsvalue" where
  "extension name versions =
     JObject [(''extensionName'', JString name),
              (''publisher'', JObject [(''publisherName'', JString ''pub'')]),
              (''versions'', JArray versions),
              (''statistics'', JArray [])]"

text \<open>
  An extension whose newer version (listed second) links to a repository, one with no
  link, one with no version at all, and a record that is not an extension.
\<close>

definition theme_linked :: jsvalue where
  "theme_linked =
     extension ''a''
       [version ''2018-01-01'' [], version ''2018-02-01'' [github_link ''https://github.com/a/b'']]"

definition theme_unlinked :: jsvalue where
  "theme_unlinked = extension ''b'' [version ''2018-01-01'' []]"

definition theme_unversioned :: jsvalue where
  "theme_unversioned = extension ''c'' []"

definition theme_malformed :: jsvalue where
  "theme_malformed = JObject [(''extensionName'', JString ''d'')]"

text \<open>
  A platform whose \<open>localeCompare\<close> places the hyphen-minus before the plus sign, as the
  root collation of the ICU library does (punctuation before symbols), and compares by
  code unit otherwise; by code unit the plus sign (43) precedes the hyphen-minus (45).
  And an extension whose two versions carry timestamps that differ in the sign of the
  offset only, each with a link of its own.
\<close>

definition hyphen_first_rank :: "char \<Rightarrow> nat" where
  "hyphen_first_rank c =
     (if c = CHR ''-'' then of_char (CHR ''+'')
      else if c = CHR ''+'' then of_char (CHR ''-'')
      else of_char c)"

definition hyphen_first :: platform where
  "hyphen_first =
     \<lparr>localeCompare =
        (\<lambda>a b. if map hyphen_first_rank a < map hyphen_first_rank b then - 1
                else if map hyphen_first_rank a = map hyphen_first_rank b then 0 else 1),
      JSON_stringify = (\<lambda>v. ''{}''),
      ToString = (\<lambda>v. ''0'')\<rparr>"

definition theme_offsets :: jsvalue where
  "theme_offsets =
     extension ''e''
       [version ''2018-01-01T00:00:00+01:00'' [github_link ''https://github.com/e/plus''],
        version ''2018-01-01T00:00:00-01:00'' [github_link ''https://github.com/e/minus'']]"

section \<open>Facts about the arithmetic\<close>

lemma round_half_even_of_int: "round_half_even (of_int z) = z"
  by (simp add: round_half_even_def)

lemma bitlen_one: "bitlen 1 = 1"
  using bitlen_pow2 [of 1 0] by (simp add: bitlen_def floorlog_def)

lemma binary_exponent_of_int:
  assumes "m \<noteq> 0"
  shows "binary_exponent (of_int m) = bitlen \<bar>m\<bar> - 1"
proof -
  have pos: "0 < \<bar>m\<bar>" using assms by simp
  have q: "quotient_of \<bar>rat_of_int m\<bar> = (\<bar>m\<bar>, 1)"
    by (metis of_int_abs quotient_of_rat_of_int)
  have b: "1 \<le> bitlen \<bar>m\<bar>" using pos by (simp add: bitlen_alt_def)
  have "2 ^ nat (bitlen \<bar>m\<bar> - 1) \<le> \<bar>m\<bar>" using bitlen_bounds [OF pos] by simp
  then have "rat_of_int (2 ^ nat (bitlen \<bar>m\<bar> - 1)) \<le> rat_of_int \<bar>m\<bar>"
    by (simp only: of_int_le_iff)
  then have "pow2 (bitlen \<bar>m\<bar> - 1) \<le> \<bar>rat_of_int m\<bar>"
    using b by (simp add: pow2_def)
  then show ?thesis
    using q by (simp add: binary_exponent_def bitlen_one)
qed

lemma to_double_of_int:
  assumes "\<bar>m\<bar> < 2 ^ 53"
  shows "to_double (of_int m) = of_int m"
proof (cases "m = 0")
  case True
  then show ?thesis by (simp add: to_double_def)
next
  case False
  have "bitlen \<bar>m\<bar> \<le> 53" using assms bitlen_le_iff_power [of "\<bar>m\<bar>" 53] by simp
  then have e: "binary_exponent (of_int m) - 52 \<le> 0"
    using binary_exponent_of_int [OF False] by simp
  define k where "k = max (binary_exponent (rat_of_int m) - 52) (- 1074)"
  have k: "k \<le> 0" using e by (simp add: k_def)
  have p: "pow2 k = 1 / 2 ^ nat (- k)"
    using k by (cases "k = 0") (simp_all add: pow2_def)
  have "rat_of_int m / pow2 k = rat_of_int (m * 2 ^ nat (- k))" by (simp add: p)
  then have "round_half_even (rat_of_int m / pow2 k) = m * 2 ^ nat (- k)"
    by (simp only: round_half_even_of_int)
  then have "of_int (round_half_even (rat_of_int m / pow2 k)) * pow2 k = rat_of_int m"
    by (simp add: p)
  then show ?thesis using False by (simp add: to_double_def k_def Let_def)
qed

lemma to_double_two_53: "to_double (2 ^ 53) = 2 ^ 53"
proof -
  have b: "bitlen (2 ^ 53) = 54" using bitlen_pow2 [of 1 53] by (simp add: bitlen_one)
  have "binary_exponent (of_int (2 ^ 53)) = 53"
    using binary_exponent_of_int [of "2 ^ 53"] b by simp
  then have e: "binary_exponent (2 ^ 53) = 53" by simp
  have r: "round_half_even (2 ^ 53 / 2) = 2 ^ 52"
    using round_half_even_of_int [of "2 ^ 52"] by simp
  show ?thesis using e r by (simp add: to_double_def pow2_def)
qed

lemma to_double_two_53_plus_one: "to_double (2 ^ 53 + 1) = 2 ^ 53"
proof -
  have b: "bitlen (2 ^ 53 + 1) = 54" using bitlen_twopow_add_eq [of 1 53] by simp
  have "binary_exponent (of_int (2 ^ 53 + 1)) = 53"
    using binary_exponent_of_int [of "2 ^ 53 + 1"] b by simp
  then have e: "binary_exponent (2 ^ 53 + 1) = 53" by simp
  have f: "\<lfloor>(2 ^ 53 + 1) / 2 :: rat\<rfloor> = 2 ^ 52" by (rule floor_unique) simp_all
  have r: "round_half_even ((2 ^ 53 + 1) / 2) = 2 ^ 52"
    unfolding round_half_even_def Let_def f by simp
  show ?thesis using e r by (simp add: to_double_def pow2_def)
qed

lemma double_plus_one:
  assumes "\<bar>n\<bar> < 2 ^ 53"
  shows "double_plus (of_int n) 1 = of_int n + 1"
proof (cases "n + 1 = 2 ^ 53")
  case True
  then have "rat_of_int n + 1 = 2 ^ 53"
    by (metis of_int_1 of_int_add of_int_numeral of_int_power)
  then show ?thesis using to_double_two_53 by (simp add: double_plus_def)
next
  case False
  then have "\<bar>n + 1\<bar> < 2 ^ 53" using assms by simp
  from to_double_of_int [OF this] show ?thesis by (simp add: double_plus_def)
qed

lemma double_plus_1_1: "double_plus 1 1 = 2"
  using double_plus_one [of 1] by simp

section \<open>Facts about the guards\<close>

lemma guard_Number: "guard Number v \<Longrightarrow> \<exists>n. v = JNumber n"
  by (cases v) simp_all

lemma guard_String: "guard String v \<Longrightarrow> \<exists>s. v = JString s"
  by (cases v) simp_all

section \<open>Facts about the sort\<close>

lemma mset_insort_cmp: "mset (insort_cmp c x ys) = add_mset x (mset ys)"
  by (induction ys) simp_all

lemma mset_Array_sort: "mset (Array_sort c xs) = mset xs"
  by (induction xs) (simp_all add: Array_sort_def mset_insort_cmp)

lemma set_Array_sort: "set (Array_sort c xs) = set xs"
  using mset_Array_sort [of c xs] by (metis set_mset_mset)

lemma length_Array_sort: "length (Array_sort c xs) = length xs"
  using mset_Array_sort [of c xs] by (metis size_mset)

lemma sorted_insort_cmp:
  fixes k :: "'a \<Rightarrow> 'b::linorder"
  assumes "\<forall>y \<in> set ys. (c x y \<le> 0) = (k y \<le> k x)"
    and "sorted_wrt (\<lambda>a b. k b \<le> k a) ys"
  shows "sorted_wrt (\<lambda>a b. k b \<le> k a) (insort_cmp c x ys)"
  using assms
proof (induction ys)
  case Nil
  then show ?case by simp
next
  case (Cons y ys)
  show ?case
  proof (cases "c x y \<le> 0")
    case True
    then have "k y \<le> k x" using Cons.prems(1) by simp
    moreover have "\<forall>z \<in> set ys. k z \<le> k y" using Cons.prems(2) by simp
    ultimately have "\<forall>z \<in> set (y # ys). k z \<le> k x" by auto
    then show ?thesis using True Cons.prems(2) by simp
  next
    case False
    then have "k x \<le> k y" using Cons.prems(1) by auto
    moreover have "sorted_wrt (\<lambda>a b. k b \<le> k a) (insort_cmp c x ys)"
      using Cons.IH Cons.prems by simp
    moreover have "set (insort_cmp c x ys) = insert x (set ys)"
      using mset_insort_cmp [of c x ys] by (metis set_mset_mset set_mset_add_mset_insert)
    ultimately show ?thesis using False Cons.prems(2) by auto
  qed
qed

lemma sorted_Array_sort:
  fixes k :: "'a \<Rightarrow> 'b::linorder"
  assumes "\<forall>x \<in> set xs. \<forall>y \<in> set xs. (c x y \<le> 0) = (k y \<le> k x)"
  shows "sorted_wrt (\<lambda>a b. k b \<le> k a) (Array_sort c xs)"
  using assms
proof (induction xs)
  case Nil
  then show ?case by (simp add: Array_sort_def)
next
  case (Cons x xs)
  have "sorted_wrt (\<lambda>a b. k b \<le> k a) (Array_sort c xs)"
    using Cons by simp
  moreover have "\<forall>y \<in> set (Array_sort c xs). (c x y \<le> 0) = (k y \<le> k x)"
    using Cons.prems by (simp add: set_Array_sort)
  ultimately have "sorted_wrt (\<lambda>a b. k b \<le> k a) (insort_cmp c x (Array_sort c xs))"
    by (rule sorted_insort_cmp [rotated])
  then show ?case by (simp add: Array_sort_def)
qed

lemma by_lastUpdated_desc_agrees:
  assumes "collates_lexicographically pf (map lastUpdated versions)"
  shows "\<forall>a \<in> set versions. \<forall>b \<in> set versions.
           (by_lastUpdated_desc pf a b \<le> 0) = (lastUpdated b \<le> lastUpdated a)"
  using assms
  by (auto simp: collates_lexicographically_def by_lastUpdated_desc_def list_all_iff)

lemma sorted_versions:
  assumes "collates_lexicographically pf (map lastUpdated versions)"
  shows "sorted_wrt (\<lambda>a b. lastUpdated b \<le> lastUpdated a)
           (Array_sort (by_lastUpdated_desc pf) versions)"
  by (rule sorted_Array_sort) (rule by_lastUpdated_desc_agrees [OF assms])

lemma set_insort_cmp: "set (insort_cmp c x ys) = insert x (set ys)"
  using mset_insort_cmp [of c x ys] by (metis set_mset_mset set_mset_add_mset_insert)

lemma sorted_insort_cmp_consistent:
  fixes c :: "'a \<Rightarrow> 'a \<Rightarrow> int"
  assumes total: "\<And>a b. a \<in> S \<Longrightarrow> b \<in> S \<Longrightarrow> c a b \<le> 0 \<or> c b a \<le> 0"
    and trans: "\<And>a b d. a \<in> S \<Longrightarrow> b \<in> S \<Longrightarrow> d \<in> S \<Longrightarrow>
                  c a b \<le> 0 \<Longrightarrow> c b d \<le> 0 \<Longrightarrow> c a d \<le> 0"
    and "x \<in> S" and "set ys \<subseteq> S"
    and "sorted_wrt (\<lambda>a b. c a b \<le> 0) ys"
  shows "sorted_wrt (\<lambda>a b. c a b \<le> 0) (insort_cmp c x ys)"
  using assms(4,5)
proof (induction ys)
  case Nil
  then show ?case by simp
next
  case (Cons y ys)
  have y: "y \<in> S" and ys: "set ys \<subseteq> S" using Cons.prems(1) by simp_all
  have yz: "\<And>z. z \<in> set ys \<Longrightarrow> c y z \<le> 0" using Cons.prems(2) by simp
  have ss: "sorted_wrt (\<lambda>a b. c a b \<le> 0) ys" using Cons.prems(2) by simp
  show ?case
  proof (cases "c x y \<le> 0")
    case True
    have "\<And>z. z \<in> set ys \<Longrightarrow> c x z \<le> 0"
    proof -
      fix z assume z: "z \<in> set ys"
      then have "z \<in> S" using ys by blast
      then show "c x z \<le> 0" using trans [OF assms(3) y _ True yz [OF z]] by blast
    qed
    then show ?thesis using True yz ss by simp
  next
    case False
    then have yx: "c y x \<le> 0" using total [OF assms(3) y] by blast
    have "sorted_wrt (\<lambda>a b. c a b \<le> 0) (insort_cmp c x ys)"
      by (rule Cons.IH [OF ys ss])
    moreover have "\<And>z. z \<in> set (insort_cmp c x ys) \<Longrightarrow> c y z \<le> 0"
      using yx yz by (auto simp: set_insort_cmp)
    ultimately show ?thesis using False by simp
  qed
qed

lemma sorted_Array_sort_consistent:
  fixes c :: "'a \<Rightarrow> 'a \<Rightarrow> int"
  assumes total: "\<And>a b. a \<in> S \<Longrightarrow> b \<in> S \<Longrightarrow> c a b \<le> 0 \<or> c b a \<le> 0"
    and trans: "\<And>a b d. a \<in> S \<Longrightarrow> b \<in> S \<Longrightarrow> d \<in> S \<Longrightarrow>
                  c a b \<le> 0 \<Longrightarrow> c b d \<le> 0 \<Longrightarrow> c a d \<le> 0"
    and "set xs \<subseteq> S"
  shows "sorted_wrt (\<lambda>a b. c a b \<le> 0) (Array_sort c xs)"
  using assms(3)
proof (induction xs)
  case Nil
  then show ?case by (simp add: Array_sort_def)
next
  case (Cons x xs)
  have x: "x \<in> S" and xs: "set xs \<subseteq> S" using Cons.prems by simp_all
  have s: "sorted_wrt (\<lambda>a b. c a b \<le> 0) (Array_sort c xs)"
    by (rule Cons.IH [OF xs])
  have e: "set (Array_sort c xs) \<subseteq> S" using xs by (simp add: set_Array_sort)
  have "sorted_wrt (\<lambda>a b. c a b \<le> 0) (insort_cmp c x (Array_sort c xs))"
    using total trans x e s by (rule sorted_insort_cmp_consistent)
  then show ?case by (simp add: Array_sort_def)
qed

lemma consistent_comparison_total:
  assumes "consistent_comparison pf xs" and "a \<in> set xs" and "b \<in> set xs"
  shows "localeCompare pf a b \<le> 0 \<or> localeCompare pf b a \<le> 0"
  using assms unfolding consistent_comparison_def list_all_iff by blast

lemma consistent_comparison_trans:
  assumes "consistent_comparison pf xs" and "a \<in> set xs" and "b \<in> set xs" and "d \<in> set xs"
    and "localeCompare pf a b \<le> 0" and "localeCompare pf b d \<le> 0"
  shows "localeCompare pf a d \<le> 0"
  using assms unfolding consistent_comparison_def list_all_iff by blast

lemma sorted_versions_consistent:
  assumes "consistent_comparison pf (map lastUpdated versions)"
  shows "sorted_wrt (\<lambda>a b. localeCompare pf (lastUpdated b) (lastUpdated a) \<le> 0)
           (Array_sort (by_lastUpdated_desc pf) versions)"
proof -
  have i: "\<And>v. v \<in> set versions \<Longrightarrow> lastUpdated v \<in> set (map lastUpdated versions)"
    by simp
  have total: "\<And>a b. a \<in> set versions \<Longrightarrow> b \<in> set versions \<Longrightarrow>
      by_lastUpdated_desc pf a b \<le> 0 \<or> by_lastUpdated_desc pf b a \<le> 0"
    unfolding by_lastUpdated_desc_def
    using consistent_comparison_total [OF assms i i] by blast
  have trans: "\<And>a b d. a \<in> set versions \<Longrightarrow> b \<in> set versions \<Longrightarrow> d \<in> set versions \<Longrightarrow>
      by_lastUpdated_desc pf a b \<le> 0 \<Longrightarrow> by_lastUpdated_desc pf b d \<le> 0 \<Longrightarrow>
      by_lastUpdated_desc pf a d \<le> 0"
    unfolding by_lastUpdated_desc_def
    using consistent_comparison_trans [OF assms i i i] by blast
  have "sorted_wrt (\<lambda>a b. by_lastUpdated_desc pf a b \<le> 0)
          (Array_sort (by_lastUpdated_desc pf) versions)"
    using total trans subset_refl by (rule sorted_Array_sort_consistent)
  then show ?thesis by (simp add: by_lastUpdated_desc_def)
qed

lemma latest_is_localeCompare_maximal:
  assumes "consistent_comparison pf (map lastUpdated versions)" and "versions \<noteq> []"
  shows "\<exists>latest older. Array_sort (by_lastUpdated_desc pf) versions = latest # older \<and>
           latest \<in> set versions \<and>
           (\<forall>v \<in> set versions.
              localeCompare pf (lastUpdated v) (lastUpdated latest) \<le> 0)"
proof -
  let ?sorted = "Array_sort (by_lastUpdated_desc pf) versions"
  have "?sorted \<noteq> []"
    using assms(2) length_Array_sort [of "by_lastUpdated_desc pf" versions] by auto
  then obtain latest older where s: "?sorted = latest # older" by (cases ?sorted) auto
  have e: "set ?sorted = set versions" by (rule set_Array_sort)
  then have m: "latest \<in> set versions" using s by auto
  have "lastUpdated latest \<in> set (map lastUpdated versions)" using m by simp
  then have "localeCompare pf (lastUpdated latest) (lastUpdated latest) \<le> 0"
    using consistent_comparison_total [OF assms(1)] by blast
  moreover have "\<forall>v \<in> set older. localeCompare pf (lastUpdated v) (lastUpdated latest) \<le> 0"
    using sorted_versions_consistent [OF assms(1)] s by simp
  ultimately have "\<forall>v \<in> set versions. localeCompare pf (lastUpdated v) (lastUpdated latest) \<le> 0"
    using e s by auto
  then show ?thesis using s m by blast
qed

section \<open>Facts about the extraction\<close>

lemma guard_Extension:
  "guard ExtensionRuntime theme \<Longrightarrow>
     \<exists>fs vs. theme = JObject fs \<and> member theme ''versions'' = JArray vs \<and> list_all (guard VersionRuntime) vs"
  apply (cases theme)
  apply (auto simp: ExtensionRuntime_def split: option.splits jsvalue.splits)
  done

lemma guard_Version:
  "guard VersionRuntime v \<Longrightarrow>
     \<exists>fs s ps. v = JObject fs \<and> member v ''lastUpdated'' = JString s \<and> member v ''properties'' = JArray ps
        \<and> list_all (guard PropertyRuntime) ps"
  apply (cases v)
  apply (auto simp: VersionRuntime_def split: option.splits jsvalue.splits)
  done

lemma member_put: "member (put (JObject fs) k x) k = x"
  by (simp add: update_conv')

lemma extract_theme_valid:
  assumes "guard ExtensionRuntime theme" and "member theme ''versions'' = JArray versions"
  shows "extract_theme pf theme =
           (put theme ''versions'' (JArray (Array_sort (by_lastUpdated_desc pf) versions)),
            find_repository pf
              (put theme ''versions'' (JArray (Array_sort (by_lastUpdated_desc pf) versions)))
              (index0 (JArray (Array_sort (by_lastUpdated_desc pf) versions))))"
  using assms by (simp add: extract_theme_def Let_def)

lemma find_repository_of_version:
  assumes "guard VersionRuntime latest" and "member latest ''properties'' = JArray properties"
  shows "snd (find_repository pf theme latest) =
           Inr (case find (\<lambda>prop. member prop ''key'' = JString GITHUB_PROPERTY_NAME) properties of
                  Some repoUrlProp \<Rightarrow> [member repoUrlProp ''value'']
                | None \<Rightarrow> [])"
proof -
  have "\<not> nullish latest" using guard_Version [OF assms(1)] by auto
  then show ?thesis
    using assms(2) by (simp add: find_repository_def get_def split: option.splits)
qed

lemma extract_theme_invalid:
  assumes "\<not> guard ExtensionRuntime theme"
  shows "extract_theme pf theme = (theme, [''Invalid theme: '' @ JSON_stringify pf theme], Inr [])"
  using assms by (simp add: extract_theme_def)

lemma extract_theme_no_link:
  assumes "no_repository_link pf theme"
  shows "\<exists>theme' line. extract_theme pf theme = (theme', [line], Inr [])"
proof -
  from assms have g: "guard ExtensionRuntime theme" by (simp add: no_repository_link_def)
  then obtain versions where v: "member theme ''versions'' = JArray versions"
    using guard_Extension by blast
  from assms v obtain latest older properties where
    s: "Array_sort (by_lastUpdated_desc pf) versions = latest # older"
    and p: "member latest ''properties'' = JArray properties"
    and f: "find (\<lambda>prop. member prop ''key'' = JString GITHUB_PROPERTY_NAME) properties = None"
    by (auto simp: no_repository_link_def split: list.splits jsvalue.splits)
  have "\<not> nullish latest" using p by (cases latest) simp_all
  then show ?thesis
    using s p f by (simp add: extract_theme_valid [OF g v] find_repository_def get_def)
qed

lemma extract_theme_skipped:
  assumes "\<not> guard ExtensionRuntime theme \<or> no_repository_link pf theme"
  shows "\<exists>theme' line. extract_theme pf theme = (theme', [line], Inr [])"
  using assms extract_theme_invalid extract_theme_no_link by blast

lemma outcome_forEach_state:
  "outcome (forEach_theme pf ts (visited, repos, logs)) =
   outcome (forEach_theme pf ts (visited', repos, logs'))"
proof (induction ts arbitrary: visited repos logs visited' logs')
  case Nil
  show ?case by (simp add: outcome_def)
next
  case (Cons t ts)
  obtain t' lines r where e: "extract_theme pf t = (t', lines, r)" by (rule prod_cases3)
  show ?case
  proof (cases r)
    case (Inl err)
    then show ?thesis using e by (simp add: outcome_def)
  next
    case (Inr urls)
    then show ?thesis using e Cons.IH by simp
  qed
qed

lemma outcome_forEach_append_skipped:
  assumes "extract_theme pf theme = (theme', lines, Inr [])"
  shows "outcome (forEach_theme pf (before @ theme # after) (visited, repos, logs)) =
         outcome (forEach_theme pf (before @ after) (visited, repos, logs))"
proof (induction before arbitrary: visited repos logs)
  case Nil
  show ?case using assms outcome_forEach_state by simp
next
  case (Cons t ts)
  obtain t' ls r where e: "extract_theme pf t = (t', ls, r)" by (rule prod_cases3)
  show ?case
  proof (cases r)
    case (Inl err)
    then show ?thesis using e by (simp add: outcome_def)
  next
    case (Inr urls)
    then show ?thesis using e Cons.IH by simp
  qed
qed

lemma extractRepositories_outcome:
  "snd (snd (extractRepositories pf (JArray ts))) = outcome (forEach_theme pf ts ([], [], []))"
proof -
  obtain v r l e where f: "forEach_theme pf ts ([], [], []) = ((v, r, l), e)"
    by (metis prod_cases3 surj_pair)
  then show ?thesis by (cases e) (simp_all add: extractRepositories_def outcome_def)
qed

lemma forEach_visited:
  assumes "forEach_theme pf ts (visited, repos, logs) = ((visited', repos', logs'), e)"
  shows "\<exists>n \<le> length ts.
           visited' = visited @ map (\<lambda>t. fst (extract_theme pf t)) (take n ts) @ drop n ts \<and>
           (e = None \<longrightarrow> n = length ts)"
  using assms
proof (induction ts arbitrary: visited repos logs)
  case Nil
  then show ?case by simp
next
  case (Cons t ts)
  obtain t' ls r where x: "extract_theme pf t = (t', ls, r)" by (rule prod_cases3)
  show ?case
  proof (cases r)
    case (Inl err)
    then have "visited' = visited @ t' # ts" and "e = Some err" using x Cons.prems by simp_all
    then have "visited' = visited @ map (\<lambda>t. fst (extract_theme pf t)) (take 1 (t # ts)) @ drop 1 (t # ts)
       \<and> (e = None \<longrightarrow> 1 = length (t # ts))"
      using x by simp
    then show ?thesis by (intro exI [of _ 1]) simp
  next
    case (Inr urls)
    then have "forEach_theme pf ts (visited @ [t'], repos @ urls, logs @ ls) = ((visited', repos', logs'), e)"
      using x Cons.prems by simp
    from Cons.IH [OF this] obtain n where n: "n \<le> length ts"
      "visited' = (visited @ [t']) @ map (\<lambda>t. fst (extract_theme pf t)) (take n ts) @ drop n ts"
      "e = None \<longrightarrow> n = length ts" by blast
    then have "Suc n \<le> length (t # ts) \<and>
       visited' = visited @ map (\<lambda>t. fst (extract_theme pf t)) (take (Suc n) (t # ts)) @ drop (Suc n) (t # ts)
       \<and> (e = None \<longrightarrow> Suc n = length (t # ts))"
      using x by simp
    then show ?thesis by blast
  qed
qed

lemma extractRepositories_returns:
  assumes "snd (snd (extractRepositories pf (JArray themes))) = Inr repositories"
  shows "fst (extractRepositories pf (JArray themes)) =
           JArray (map (\<lambda>t. fst (extract_theme pf t)) themes)"
proof -
  obtain v r l e where f: "forEach_theme pf themes ([], [], []) = ((v, r, l), e)"
    by (metis prod_cases3 surj_pair)
  have "e = None" using assms f by (cases e) (simp_all add: extractRepositories_def)
  moreover from forEach_visited [OF f] obtain n where
    "v = [] @ map (\<lambda>t. fst (extract_theme pf t)) (take n themes) @ drop n themes"
    "e = None \<longrightarrow> n = length themes" by blast
  ultimately have "v = map (\<lambda>t. fst (extract_theme pf t)) themes" by simp
  then show ?thesis using f \<open>e = None\<close> by (simp add: extractRepositories_def)
qed

section \<open>Facts about one invocation\<close>

lemma payload_guard:
  "guard FetchThemesPayloadRuntime v \<longleftrightarrow> (\<exists>fs n. v = JObject fs \<and> map_of fs ''page'' = Some (JNumber n))"
  apply (cases v)
  apply (auto simp: FetchThemesPayloadRuntime_def ScrapeThemesPayloadRuntime_def split: option.splits jsvalue.splits)
  done

lemma run_invalid_payload:
  assumes "receive sv = Some j" and "\<not> guard FetchThemesPayloadRuntime (payload j)"
  shows "run pf sv =
     (preamble pf j @ [Log ''Invalid job payload.'',
       Fail j (PermanentJobError ''Invalid job payload.'')], None)"
  using assms by (simp add: run_def process_def rescue_def)

lemma run_bad_status:
  assumes "receive sv = Some j" and "guard FetchThemesPayloadRuntime (payload j)"
    and "fetch sv (the_number (member (payload j) ''page'')) = Response r" and "\<not> ok r"
  shows "run pf sv =
     (preamble pf j @ [Fetch (the_number (member (payload j) ''page'')),
        Log (''Bad response: '' @ statusText r), Retry j], None)"
  using assms by (simp add: run_def process_def rescue_def fetchMarketplaceThemes_def)

lemma fetch_events: "fst (fetchMarketplaceThemes pf sv page) = [Fetch page]"
  by (simp add: fetchMarketplaceThemes_def split: fetched.splits body.splits sum.splits)

lemma run_empty_page:
  assumes "receive sv = Some j" and "guard FetchThemesPayloadRuntime (payload j)"
    and "snd (fetchMarketplaceThemes pf sv (the_number (member (payload j) ''page''))) = Inr (JArray [])"
  shows "run pf sv =
     (preamble pf j @ [Fetch (the_number (member (payload j) ''page'')),
        Log ''No more pages to process.'', Succeed j], None)"
proof -
  let ?page = "the_number (member (payload j) ''page'')"
  have "fetchMarketplaceThemes pf sv ?page = ([Fetch ?page], Inr (JArray []))"
    using assms(3) fetch_events [of pf sv ?page] by (cases "fetchMarketplaceThemes pf sv ?page") simp
  then show ?thesis
    using assms(1,2) by (simp add: run_def process_def get_def)
qed


lemma run_nonempty_page:
  assumes "receive sv = Some j" and "guard FetchThemesPayloadRuntime (payload j)"
    and "page = the_number (member (payload j) ''page'')"
    and "snd (fetchMarketplaceThemes pf sv page) = Inr (JArray (t # ts))"
  shows "run pf sv =
     (case continue pf j page (JArray (t # ts)) of
        (events, Inr u) \<Rightarrow> (preamble pf j @ [Fetch page] @ events, None)
      | (events, Inl err) \<Rightarrow> (preamble pf j @ [Fetch page] @ events @ fst (rescue j err), snd (rescue j err)))"
proof -
  have "fetchMarketplaceThemes pf sv page = ([Fetch page], Inr (JArray (t # ts)))"
    using assms(4) fetch_events [of pf sv page] by (cases "fetchMarketplaceThemes pf sv page") simp
  then show ?thesis
    using assms(1,2,3)
    by (cases "continue pf j page (JArray (t # ts))")
       (simp add: run_def process_def get_def split: sum.splits prod.splits)
qed

lemma continue_events:
  "\<exists>rest. fst (continue pf j page themes) =
      [Create (JObject [(''page'', JNumber (double_plus page 1))]), Notify, Extract themes] @ rest \<and>
      (\<forall>x. Create x \<notin> set rest) \<and> Notify \<notin> set rest \<and> (\<forall>x. Extract x \<notin> set rest) \<and>
      (\<forall>j' e. Fail j' e \<notin> set rest) \<and> (\<forall>j'. Retry j' \<notin> set rest)"
  by (cases "extractRepositories pf themes" rule: prod_cases3)
     (auto simp: continue_def split: sum.splits)

lemma next_page_events:
  assumes "receive sv = Some j"
    and "guard FetchThemesPayloadRuntime (payload j)"
    and "member (payload j) ''page'' = JNumber page"
    and "snd (fetchMarketplaceThemes pf sv page) = Inr (JArray (t # ts))"
  shows "\<exists>before after.
           fst (run pf sv) =
             before @
             [Create (JObject [(''page'', JNumber (double_plus page 1))]), Notify,
              Extract (JArray (t # ts))] @ after \<and>
           (\<forall>x. Create x \<notin> set before) \<and> Notify \<notin> set before \<and>
           (\<forall>x. Extract x \<notin> set before) \<and> (\<forall>j'. Succeed j' \<notin> set before) \<and>
           (\<forall>x. Create x \<notin> set after) \<and> (\<forall>x. Extract x \<notin> set after)"
proof -
  have p: "page = the_number (member (payload j) ''page'')" using assms(3) by simp
  obtain rest where c:
    "fst (continue pf j page (JArray (t # ts))) =
       [Create (JObject [(''page'', JNumber (double_plus page 1))]), Notify, Extract (JArray (t # ts))] @ rest"
    and r: "\<forall>x. Create x \<notin> set rest" "\<forall>x. Extract x \<notin> set rest"
    using continue_events [of pf j page "JArray (t # ts)"] by blast
  obtain events result where k: "continue pf j page (JArray (t # ts)) = (events, result)"
    by (cases "continue pf j page (JArray (t # ts))")
  have e: "events = [Create (JObject [(''page'', JNumber (double_plus page 1))]), Notify, Extract (JArray (t # ts))] @ rest"
    using c k by simp
  let ?before = "preamble pf j @ [Fetch page]"
  have b: "(\<forall>x. Create x \<notin> set ?before) \<and> Notify \<notin> set ?before \<and>
           (\<forall>x. Extract x \<notin> set ?before) \<and> (\<forall>j'. Succeed j' \<notin> set ?before)"
    by (simp add: preamble_def)
  show ?thesis
  proof (cases result)
    case (Inr u)
    then have "fst (run pf sv) = ?before @ [Create (JObject [(''page'', JNumber (double_plus page 1))]), Notify,
              Extract (JArray (t # ts))] @ rest"
      using run_nonempty_page [OF assms(1,2) p assms(4)] k e by simp
    then show ?thesis using b r by blast
  next
    case (Inl err)
    then have "fst (run pf sv) = ?before @ [Create (JObject [(''page'', JNumber (double_plus page 1))]), Notify,
              Extract (JArray (t # ts))] @ (rest @ fst (rescue j err))"
      using run_nonempty_page [OF assms(1,2) p assms(4)] k e by simp
    moreover have "(\<forall>x. Create x \<notin> set (rest @ fst (rescue j err))) \<and>
                   (\<forall>x. Extract x \<notin> set (rest @ fst (rescue j err)))"
      using r by (simp add: rescue_def)
    ultimately show ?thesis using b by blast
  qed
qed

lemma acknowledgements_map_Log: "acknowledgements j (map Log lines) = []"
  by (induction lines) (simp_all add: acknowledgements_def)

lemma acknowledgements_append:
  "acknowledgements j (xs @ ys) = acknowledgements j xs @ acknowledgements j ys"
  by (simp add: acknowledgements_def)

lemma continue_acknowledgements:
  "acknowledgements j (fst (continue pf j page themes)) =
     (case snd (snd (extractRepositories pf themes)) of
        Inl e \<Rightarrow> []
      | Inr repositories \<Rightarrow> if repositories = [] then [] else [Succeed j])"
proof -
  obtain themes' lines r where e: "extractRepositories pf themes = (themes', lines, r)"
    by (rule prod_cases3)
  have "acknowledgements j (map Log lines) = []" by (rule acknowledgements_map_Log)
  then have m: "filter (acknowledges j) (map Log lines) = []" by (simp add: acknowledgements_def)
  show ?thesis
    using e m by (cases r) (simp_all add: continue_def acknowledgements_def)
qed

lemma continue_throws:
  "snd (continue pf j page themes) =
     (case snd (snd (extractRepositories pf themes)) of Inl e \<Rightarrow> Inl e | Inr repositories \<Rightarrow> Inr ())"
proof -
  obtain themes' lines r where e: "extractRepositories pf themes = (themes', lines, r)"
    by (rule prod_cases3)
  show ?thesis using e by (cases r) (simp_all add: continue_def)
qed

lemma rescue_acknowledgements: "length (acknowledgements j (fst (rescue j e))) = 1"
  by (simp add: rescue_def acknowledgements_def)

lemma acknowledgement_count:
  assumes "receive sv = Some j"
  shows "length (acknowledgements j (fst (run pf sv))) = (if extracts_nothing pf sv j then 0 else 1)"
proof (cases "guard FetchThemesPayloadRuntime (payload j)")
  case False
  from run_invalid_payload [OF assms False, of pf] show ?thesis
    using False by (simp add: preamble_def acknowledgements_def extracts_nothing_def)
next
  case True
  let ?page = "the_number (member (payload j) ''page'')"
  obtain fetching r where f: "fetchMarketplaceThemes pf sv ?page = (fetching, r)"
    by (cases "fetchMarketplaceThemes pf sv ?page")
  have fe: "fetching = [Fetch ?page]"
    using fetch_events [of pf sv ?page] f by simp
  have p: "acknowledgements j (preamble pf j) = []"
    by (simp add: preamble_def acknowledgements_def)
  show ?thesis
  proof (cases r)
    case (Inl e)
    then have "fst (run pf sv) = preamble pf j @ [Fetch ?page] @ fst (rescue j e)"
      using assms True f fe by (simp add: run_def process_def split: prod.splits)
    moreover have "\<not> extracts_nothing pf sv j"
      using f Inl by (simp add: extracts_nothing_def)
    ultimately show ?thesis
      using p rescue_acknowledgements [of j e]
      by (simp add: acknowledgements_append) (simp add: acknowledgements_def)
  next
    case (Inr themes)
    show ?thesis
    proof (cases "get themes ''length''")
      case (Inl e)
      then have "fst (run pf sv) = preamble pf j @ [Fetch ?page] @ fst (rescue j e)"
        using assms True f fe Inr by (simp add: run_def process_def split: prod.splits)
      moreover have "\<not> extracts_nothing pf sv j"
        using f Inr Inl by (simp add: extracts_nothing_def)
      ultimately show ?thesis
        using p rescue_acknowledgements [of j e]
        by (simp add: acknowledgements_append) (simp add: acknowledgements_def)
    next
      case len: (Inr len)
      show ?thesis
      proof (cases "len = JNumber 0")
        case True
        then have "fst (run pf sv) =
            preamble pf j @ [Fetch ?page, Log ''No more pages to process.'', Succeed j]"
          using assms \<open>guard FetchThemesPayloadRuntime (payload j)\<close> f fe Inr len
          by (simp add: run_def process_def)
        moreover have "\<not> extracts_nothing pf sv j"
          using f Inr len True by (simp add: extracts_nothing_def)
        ultimately show ?thesis
          using p by (simp add: acknowledgements_append) (simp add: acknowledgements_def)
      next
        case False
        obtain events result where c: "continue pf j ?page themes = (events, result)"
          by (cases "continue pf j ?page themes")
        have ca: "acknowledgements j events =
           (case snd (snd (extractRepositories pf themes)) of
              Inl e \<Rightarrow> [] | Inr repositories \<Rightarrow> if repositories = [] then [] else [Succeed j])"
          using continue_acknowledgements [of j pf ?page themes] c by simp
        have ct: "result =
           (case snd (snd (extractRepositories pf themes)) of
              Inl e \<Rightarrow> Inl e | Inr repositories \<Rightarrow> Inr ())"
          using continue_throws [of pf j ?page themes] c by simp
        have n: "extracts_nothing pf sv j \<longleftrightarrow> snd (snd (extractRepositories pf themes)) = Inr []"
          using \<open>guard FetchThemesPayloadRuntime (payload j)\<close> f Inr len False
          by (simp add: extracts_nothing_def)
        show ?thesis
        proof (cases "snd (snd (extractRepositories pf themes))")
          case (Inl e)
          then have "fst (run pf sv) = preamble pf j @ [Fetch ?page] @ events @ fst (rescue j e)"
            using assms \<open>guard FetchThemesPayloadRuntime (payload j)\<close> f fe Inr len False c ct
            by (simp add: run_def process_def split: prod.splits)
          then show ?thesis
            using p rescue_acknowledgements [of j e] ca Inl n
            by (simp add: acknowledgements_append) (simp add: acknowledgements_def)
        next
          case r: (Inr repositories)
          then have "fst (run pf sv) = preamble pf j @ [Fetch ?page] @ events"
            using assms \<open>guard FetchThemesPayloadRuntime (payload j)\<close> f fe Inr len False c ct
            by (simp add: run_def process_def)
          then show ?thesis
            using p ca r n
            by (simp add: acknowledgements_append) (simp add: acknowledgements_def)
        qed
      qed
    qed
  qed
qed

lemma at_most_one_acknowledgement:
  assumes "receive sv = Some j"
  shows "length (acknowledgements j (fst (run pf sv))) \<le> 1"
  using acknowledgement_count [OF assms, of pf] by (simp split: if_splits)

lemma unshaped_caught_is_retried:
  assumes "receive sv = Some j"
    and "guard FetchThemesPayloadRuntime (payload j)"
    and "member (payload j) ''page'' = JNumber page"
    and "fetch sv page = Response r" and "ok r" and "json r = Json data"
    and "results0_extensions data = Inl e"
  shows "run pf sv =
     (preamble pf j @
      [Fetch page, Log (''Invalid response data: '' @ JSON_stringify pf data), Retry j], None)"
  using assms
  by (simp add: run_def process_def fetchMarketplaceThemes_def rescue_def)

lemma results0_extensions_throws:
  "(\<exists>e. results0_extensions data = Inl e) \<longleftrightarrow>
     nullish data \<or> nullish (member data ''results'') \<or> nullish (index0 (member data ''results''))"
  by (simp add: results0_extensions_def get_def get0_def)

section \<open>Facts about the examples\<close>

lemmas shape_defs =
  FetchThemesPayloadRuntime_def ScrapeThemesPayloadRuntime_def ExtensionRuntime_def
  VersionRuntime_def PropertyRuntime_def StatisticRuntime_def PublisherRuntime_def

lemma theme_linked_guard: "guard ExtensionRuntime theme_linked"
  by (simp add: theme_linked_def extension_def version_def github_link_def shape_defs)

lemma theme_unlinked_guard: "guard ExtensionRuntime theme_unlinked"
  by (simp add: theme_unlinked_def extension_def version_def shape_defs)

lemma theme_linked_versions:
  "member theme_linked ''versions'' =
     JArray [version ''2018-01-01'' [],
             version ''2018-02-01'' [github_link ''https://github.com/a/b'']]"
  by (simp add: theme_linked_def extension_def)

lemma theme_linked_collates:
  "collates_lexicographically lexicographic
     (map lastUpdated [version ''2018-01-01'' [],
                       version ''2018-02-01'' [github_link ''https://github.com/a/b'']])"
  by (simp add: collates_lexicographically_def lexicographic_def lastUpdated_def version_def)

lemma theme_linked_sorted:
  "Array_sort (by_lastUpdated_desc lexicographic)
     [version ''2018-01-01'' [],
      version ''2018-02-01'' [github_link ''https://github.com/a/b'']] =
     [version ''2018-02-01'' [github_link ''https://github.com/a/b''],
      version ''2018-01-01'' []]"
  by (simp add: Array_sort_def by_lastUpdated_desc_def lexicographic_def lastUpdated_def
        version_def)

lemma theme_malformed_guard: "\<not> guard ExtensionRuntime theme_malformed"
  by (simp add: theme_malformed_def shape_defs)

lemma theme_unlinked_no_link: "no_repository_link pf theme_unlinked"
  by (simp add: no_repository_link_def theme_unlinked_guard)
     (simp add: theme_unlinked_def extension_def version_def Array_sort_def)

lemma linked_page_urls:
  "snd (snd (extractRepositories lexicographic (JArray [theme_linked]))) =
     Inr [JString ''https://github.com/a/b'']"
  by (simp add: extractRepositories_def extract_theme_valid [OF theme_linked_guard theme_linked_versions]
        theme_linked_sorted find_repository_def get_def)
     (simp add: version_def github_link_def)

lemma unversioned_record_throws:
  "snd (snd (extractRepositories pf (JArray [theme_unversioned, theme_linked]))) = Inl TypeError"
  by (simp add: extractRepositories_def extract_theme_def theme_unversioned_def extension_def
        shape_defs Array_sort_def find_repository_def get_def Let_def)

lemma theme_offsets_guard: "guard ExtensionRuntime theme_offsets"
  by (simp add: theme_offsets_def extension_def version_def github_link_def shape_defs)

lemma theme_offsets_versions:
  "member theme_offsets ''versions'' =
     JArray [version ''2018-01-01T00:00:00+01:00'' [github_link ''https://github.com/e/plus''],
             version ''2018-01-01T00:00:00-01:00'' [github_link ''https://github.com/e/minus'']]"
  by (simp add: theme_offsets_def extension_def)

lemma theme_offsets_sorted:
  "Array_sort (by_lastUpdated_desc hyphen_first)
     [version ''2018-01-01T00:00:00+01:00'' [github_link ''https://github.com/e/plus''],
      version ''2018-01-01T00:00:00-01:00'' [github_link ''https://github.com/e/minus'']] =
     [version ''2018-01-01T00:00:00+01:00'' [github_link ''https://github.com/e/plus''],
      version ''2018-01-01T00:00:00-01:00'' [github_link ''https://github.com/e/minus'']]"
  by (simp add: Array_sort_def by_lastUpdated_desc_def hyphen_first_def hyphen_first_rank_def
        lastUpdated_def version_def)

lemma theme_linked_consistent:
  "consistent_comparison lexicographic
     (map lastUpdated [version ''2018-01-01'' [],
                       version ''2018-02-01'' [github_link ''https://github.com/a/b'']])"
  by (simp add: consistent_comparison_def lexicographic_def lastUpdated_def version_def)

section \<open>The claims\<close>

subsection \<open>The next page is queued first\<close>

text \<open>
  Claim C1 says that the job created is for \<open>currentPage + 1\<close>. The code computes
  \<open>page + 1\<close> on doubles, and the guard accepts every number: for a job on page
  \<open>2^53 = 9007199254740992\<close>, which passes the guard, the page fetched being not empty,
  the job created is for page \<open>2^53\<close> again, and none is created for \<open>2^53 + 1\<close>.
\<close>

theorem next_page_counterexample:
  "guard FetchThemesPayloadRuntime (page_payload 9007199254740992) \<and>
   snd (fetchMarketplaceThemes lexicographic
          (serving (job_of (page_payload 9007199254740992)) (catalog (JArray [theme_linked])))
          9007199254740992) = Inr (JArray [theme_linked]) \<and>
   Create (page_payload 9007199254740992)
     \<in> set (fst (run lexicographic
                    (serving (job_of (page_payload 9007199254740992))
                       (catalog (JArray [theme_linked]))))) \<and>
   Create (page_payload (9007199254740992 + 1))
     \<notin> set (fst (run lexicographic
                    (serving (job_of (page_payload 9007199254740992))
                       (catalog (JArray [theme_linked])))))"
proof -
  let ?j = "job_of (page_payload 9007199254740992)"
  let ?sv = "serving ?j (catalog (JArray [theme_linked]))"
  have 1: "receive ?sv = Some ?j" by (simp add: serving_def)
  have 2: "guard FetchThemesPayloadRuntime (payload ?j)"
    by (simp add: job_of_def page_payload_def shape_defs)
  have 3: "member (payload ?j) ''page'' = JNumber 9007199254740992"
    by (simp add: job_of_def page_payload_def)
  have 4: "snd (fetchMarketplaceThemes lexicographic ?sv 9007199254740992) =
             Inr (JArray (theme_linked # []))"
    by (simp add: serving_def catalog_def fetchMarketplaceThemes_def results0_extensions_def
          get_def get0_def)
  have d: "double_plus 9007199254740992 1 = 9007199254740992"
    using to_double_two_53_plus_one by (simp add: double_plus_def)
  from next_page_events [OF 1 2 3 4] obtain before after where
    t: "fst (run lexicographic ?sv) =
          before @
          [Create (JObject [(''page'', JNumber (double_plus 9007199254740992 1))]), Notify,
           Extract (JArray [theme_linked])] @ after"
    and n: "\<forall>x. Create x \<notin> set before" "\<forall>x. Create x \<notin> set after"
    by blast
  have "Create (page_payload 9007199254740992) \<in> set (fst (run lexicographic ?sv))"
    using t d by (simp add: page_payload_def)
  moreover have "Create (page_payload (9007199254740992 + 1)) \<notin> set (fst (run lexicographic ?sv))"
    using t d n by (simp add: page_payload_def)
  moreover have "guard FetchThemesPayloadRuntime (page_payload 9007199254740992)"
    using 2 by (simp add: job_of_def)
  ultimately show ?thesis using 4 by simp
qed

text \<open>
  Claim C1 as amended. For a received job whose payload passes the guard and whose
  fetched page has at least one extension, the events of the invocation contain
  \<open>Create {page: page + 1}\<close>, the sum being that of doubles, followed at once by
  \<open>Notify\<close> and then the call of \<open>extractRepositories\<close>; nothing before them is a call of
  \<open>extractRepositories\<close> or a \<open>Succeed\<close>, and no other job is created. So the next-page
  job is created, and the consumer notified, before extraction begins and before the
  current job is acknowledged. The sum is \<open>currentPage + 1\<close> exactly when the current
  page is an integer of magnitude below \<open>2^53\<close>.
\<close>

theorem next_page_before_extraction:
  assumes "receive sv = Some j"
    and "guard FetchThemesPayloadRuntime (payload j)"
    and "member (payload j) ''page'' = JNumber page"
    and "snd (fetchMarketplaceThemes pf sv page) = Inr (JArray (t # ts))"
  shows "(\<exists>before after.
            fst (run pf sv) =
              before @
              [Create (JObject [(''page'', JNumber (double_plus page 1))]), Notify,
               Extract (JArray (t # ts))] @ after \<and>
            (\<forall>x. Create x \<notin> set before) \<and> Notify \<notin> set before \<and>
            (\<forall>x. Extract x \<notin> set before) \<and> (\<forall>j'. Succeed j' \<notin> set before) \<and>
            (\<forall>x. Create x \<notin> set after) \<and> (\<forall>x. Extract x \<notin> set after)) \<and>
         (page = of_int n \<and> \<bar>n\<bar> < 2 ^ 53 \<longrightarrow> double_plus page 1 = page + 1)"
proof
  show "\<exists>before after.
            fst (run pf sv) =
              before @
              [Create (JObject [(''page'', JNumber (double_plus page 1))]), Notify,
               Extract (JArray (t # ts))] @ after \<and>
            (\<forall>x. Create x \<notin> set before) \<and> Notify \<notin> set before \<and>
            (\<forall>x. Extract x \<notin> set before) \<and> (\<forall>j'. Succeed j' \<notin> set before) \<and>
            (\<forall>x. Create x \<notin> set after) \<and> (\<forall>x. Extract x \<notin> set after)"
    by (rule next_page_events [OF assms])
next
  show "page = of_int n \<and> \<bar>n\<bar> < 2 ^ 53 \<longrightarrow> double_plus page 1 = page + 1"
    using double_plus_one [of n] by simp
qed

text \<open>Page 1 with two extensions: the job created is for page 2.\<close>

theorem next_page_before_extraction_witness:
  "(\<exists>before after.
      fst (run lexicographic
             (serving (job_of (page_payload 1)) (catalog (JArray [theme_linked, theme_unlinked])))) =
        before @
        [Create (JObject [(''page'', JNumber (double_plus 1 1))]), Notify,
         Extract (JArray (theme_linked # [theme_unlinked]))] @ after \<and>
      (\<forall>x. Create x \<notin> set before) \<and> Notify \<notin> set before \<and>
      (\<forall>x. Extract x \<notin> set before) \<and> (\<forall>j'. Succeed j' \<notin> set before) \<and>
      (\<forall>x. Create x \<notin> set after) \<and> (\<forall>x. Extract x \<notin> set after)) \<and>
   double_plus 1 1 = 1 + 1"
proof -
  let ?j = "job_of (page_payload 1)"
  let ?sv = "serving ?j (catalog (JArray [theme_linked, theme_unlinked]))"
  have 1: "receive ?sv = Some ?j" by (simp add: serving_def)
  have 2: "guard FetchThemesPayloadRuntime (payload ?j)"
    by (simp add: job_of_def page_payload_def shape_defs)
  have 3: "member (payload ?j) ''page'' = JNumber 1"
    by (simp add: job_of_def page_payload_def)
  have 4: "snd (fetchMarketplaceThemes lexicographic ?sv 1) =
             Inr (JArray (theme_linked # [theme_unlinked]))"
    by (simp add: serving_def catalog_def fetchMarketplaceThemes_def results0_extensions_def
          get_def get0_def)
  have 5: "(1::rat) = of_int 1 \<and> \<bar>1::int\<bar> < 2 ^ 53" by simp
  from next_page_before_extraction [OF 1 2 3 4, of 1] 5 show ?thesis by blast
qed

subsection \<open>One acknowledgement for each job\<close>

text \<open>
  Claim C2 says that every received job gets exactly one of \<open>Succeed\<close>, \<open>Fail\<close> and
  \<open>Retry\<close>, and that a job whose non-empty page yields no URL is succeeded. No job gets
  more than one, and every job gets one except in the invocations of
  \<open>extracts_nothing\<close> (\<open>acknowledgement_count\<close> above): when the page is not empty and
  extraction returns no URL, \<open>run\<close> returns after logging, with no acknowledgement at
  all. Here on page 1 with one extension that has no repository link, where the job for
  page 2 has been created and the invocation resolves. The branch for an empty page
  calls \<open>succeed\<close> before it returns; this one does not.
\<close>

theorem unacknowledged_when_no_repository:
  "acknowledgements (job_of (page_payload 1))
     (fst (run pf (serving (job_of (page_payload 1)) (catalog (JArray [theme_unlinked]))))) = [] \<and>
   Create (page_payload 2)
     \<in> set (fst (run pf (serving (job_of (page_payload 1)) (catalog (JArray [theme_unlinked]))))) \<and>
   snd (run pf (serving (job_of (page_payload 1)) (catalog (JArray [theme_unlinked])))) = None"
  by (simp add: page_payload_def shape_defs job_of_def serving_def catalog_def run_def process_def
        fetchMarketplaceThemes_def results0_extensions_def get_def get0_def preamble_def
        acknowledgements_def continue_def extractRepositories_def extract_theme_def
        find_repository_def Array_sort_def theme_unlinked_def extension_def version_def
        GITHUB_PROPERTY_NAME_def Let_def double_plus_1_1)

subsection \<open>The payload guard\<close>

text \<open>
  Claim C3 says the validator accepts a payload exactly when its \<open>page\<close> is an integer
  that is at least 1. The guard is \<open>Record({ page: Number })\<close>: it does not look at the
  value of the number. The payloads \<open>{page: 0}\<close> and \<open>{page: 1.5}\<close> pass it and are not
  valid in the words of the specification, and the job with \<open>{page: 0}\<close> is succeeded
  (on an empty page), not failed.
\<close>

theorem payload_guard_counterexample:
  "guard FetchThemesPayloadRuntime (page_payload 0) \<and>
   \<not> spec_FetchPagePayload (page_payload 0) \<and>
   guard FetchThemesPayloadRuntime (page_payload (3 / 2)) \<and>
   \<not> spec_FetchPagePayload (page_payload (3 / 2)) \<and>
   acknowledgements (job_of (page_payload 0))
     (fst (run lexicographic (serving (job_of (page_payload 0)) (catalog (JArray []))))) =
     [Succeed (job_of (page_payload 0))]"
proof -
  have f: "\<lfloor>3 / 2 :: rat\<rfloor> = 1" by (rule floor_unique) simp_all
  have 1: "guard FetchThemesPayloadRuntime (page_payload 0)"
    by (simp add: page_payload_def shape_defs)
  have 2: "\<not> spec_FetchPagePayload (page_payload 0)"
    by (simp add: page_payload_def spec_FetchPagePayload_def)
  have 3: "guard FetchThemesPayloadRuntime (page_payload (3 / 2))"
    by (simp add: page_payload_def shape_defs)
  have 4: "\<not> spec_FetchPagePayload (page_payload (3 / 2))"
    unfolding page_payload_def spec_FetchPagePayload_def by (simp add: f del: divide_le_eq_numeral1 le_divide_eq_numeral1)
  have 5: "acknowledgements (job_of (page_payload 0))
     (fst (run lexicographic (serving (job_of (page_payload 0)) (catalog (JArray []))))) =
     [Succeed (job_of (page_payload 0))]"
    by (simp add: page_payload_def shape_defs job_of_def serving_def
        catalog_def run_def process_def fetchMarketplaceThemes_def results0_extensions_def
        get_def get0_def preamble_def acknowledgements_def)
  show ?thesis using 1 2 3 4 5 by blast
qed

text \<open>
  Claim C3 as amended. The guard accepts a payload exactly when it is an object with a
  \<open>page\<close> property that is a number, whatever the number; and a received job whose
  payload the guard rejects is acknowledged by \<open>Fail\<close> with the Permanent error, and by
  nothing else.
\<close>

theorem payload_guard_accepts_any_number:
  "(guard FetchThemesPayloadRuntime v \<longleftrightarrow>
      (\<exists>fs n. v = JObject fs \<and> map_of fs ''page'' = Some (JNumber n))) \<and>
   (receive sv = Some j \<and> \<not> guard FetchThemesPayloadRuntime (payload j) \<longrightarrow>
      acknowledgements j (fst (run pf sv)) =
        [Fail j (PermanentJobError ''Invalid job payload.'')])"
proof (intro conjI impI)
  show "guard FetchThemesPayloadRuntime v \<longleftrightarrow>
      (\<exists>fs n. v = JObject fs \<and> map_of fs ''page'' = Some (JNumber n))"
    by (rule payload_guard)
next
  assume a: "receive sv = Some j \<and> \<not> guard FetchThemesPayloadRuntime (payload j)"
  then have "run pf sv =
     (preamble pf j @ [Log ''Invalid job payload.'',
       Fail j (PermanentJobError ''Invalid job payload.'')], None)"
    using run_invalid_payload by blast
  then show "acknowledgements j (fst (run pf sv)) =
        [Fail j (PermanentJobError ''Invalid job payload.'')]"
    by (simp add: preamble_def acknowledgements_def)
qed

text \<open>A payload with page \<open>-3.5\<close> is accepted; one whose page is the string \<open>1\<close> is failed.\<close>

theorem payload_guard_accepts_any_number_witness:
  "guard FetchThemesPayloadRuntime (page_payload (- 7 / 2)) \<and>
   acknowledgements (job_of (JObject [(''page'', JString ''1'')]))
     (fst (run lexicographic
            (serving (job_of (JObject [(''page'', JString ''1'')])) (catalog (JArray []))))) =
     [Fail (job_of (JObject [(''page'', JString ''1'')]))
        (PermanentJobError ''Invalid job payload.'')]"
proof -
  let ?j = "job_of (JObject [(''page'', JString ''1'')])"
  let ?sv = "serving ?j (catalog (JArray []))"
  have "\<exists>fs n. page_payload (- 7 / 2) = JObject fs \<and> map_of fs ''page'' = Some (JNumber n)"
    by (simp add: page_payload_def)
  then have 1: "guard FetchThemesPayloadRuntime (page_payload (- 7 / 2))"
    using payload_guard_accepts_any_number [of "page_payload (- 7 / 2)"] by blast
  have "\<not> (\<exists>fs n. payload ?j = JObject fs \<and> map_of fs ''page'' = Some (JNumber n))"
    by (simp add: job_of_def)
  then have "\<not> guard FetchThemesPayloadRuntime (payload ?j)"
    using payload_guard_accepts_any_number [of "payload ?j"] by blast
  moreover have "receive ?sv = Some ?j" by (simp add: serving_def)
  ultimately have 2: "acknowledgements ?j (fst (run lexicographic ?sv)) =
      [Fail ?j (PermanentJobError ''Invalid job payload.'')]"
    using payload_guard_accepts_any_number [of _ ?sv ?j lexicographic] by blast
  show ?thesis using 1 2 by (rule conjI)
qed

subsection \<open>A response body of another shape\<close>

text \<open>
  Claim C4 says that every body without the shape \<open>results[0].extensions\<close> raises a
  Transient error and the job is retried. That holds when reading
  \<open>data.results[0].extensions\<close> throws, that is when \<open>data\<close>, \<open>data.results\<close> or
  \<open>data.results[0]\<close> is \<open>undefined\<close> or \<open>null\<close> (\<open>results0_extensions_throws\<close>,
  \<open>unshaped_caught_is_retried\<close> above). When \<open>results[0]\<close> is there and has no
  \<open>extensions\<close>, the read gives \<open>undefined\<close> and nothing is thrown inside
  \<open>fetchMarketplaceThemes\<close>; \<open>themes.length\<close> in \<open>run\<close> then throws a \<open>TypeError\<close>,
  which is neither Transient nor Permanent: the job is failed and the error thrown again.
  Here on the body \<open>{"results": [{}]}\<close>.
\<close>

theorem missing_extensions_is_unclassified:
  "run pf (serving (job_of (page_payload 1)) (JObject [(''results'', JArray [JObject []])])) =
     (preamble pf (job_of (page_payload 1)) @
      [Fetch 1, Log ''Unexpected Error.'', Fail (job_of (page_payload 1)) TypeError],
      Some TypeError)"
  by (simp add: page_payload_def shape_defs job_of_def serving_def run_def process_def
        fetchMarketplaceThemes_def results0_extensions_def get_def get0_def rescue_def)

subsection \<open>An empty page ends the chain\<close>

text \<open>
  Claim C5. For a received job whose payload passes the guard and whose fetched page has
  no extension, the only acknowledgement of the job is \<open>Succeed\<close>, no job is created,
  \<open>Notify\<close> is not called, \<open>extractRepositories\<close> is not called and no list of URLs is
  logged; the invocation resolves.
\<close>

theorem empty_page_ends_chain:
  assumes "receive sv = Some j"
    and "guard FetchThemesPayloadRuntime (payload j)"
    and "member (payload j) ''page'' = JNumber page"
    and "snd (fetchMarketplaceThemes pf sv page) = Inr (JArray [])"
  shows "acknowledgements j (fst (run pf sv)) = [Succeed j] \<and>
         (\<forall>x. Create x \<notin> set (fst (run pf sv))) \<and>
         Notify \<notin> set (fst (run pf sv)) \<and>
         (\<forall>x. Extract x \<notin> set (fst (run pf sv))) \<and>
         (\<forall>x. LogValue x \<notin> set (fst (run pf sv))) \<and>
         snd (run pf sv) = None"
proof -
  have "snd (fetchMarketplaceThemes pf sv (the_number (member (payload j) ''page''))) = Inr (JArray [])"
    using assms(3,4) by simp
  from run_empty_page [OF assms(1,2) this] show ?thesis
    by (simp add: preamble_def acknowledgements_def)
qed

text \<open>Page 5 with no extension.\<close>

theorem empty_page_ends_chain_witness:
  "acknowledgements (job_of (page_payload 5))
     (fst (run lexicographic (serving (job_of (page_payload 5)) (catalog (JArray []))))) =
     [Succeed (job_of (page_payload 5))] \<and>
   (\<forall>x. Create x \<notin> set (fst (run lexicographic (serving (job_of (page_payload 5)) (catalog (JArray [])))))) \<and>
   Notify \<notin> set (fst (run lexicographic (serving (job_of (page_payload 5)) (catalog (JArray []))))) \<and>
   (\<forall>x. Extract x \<notin> set (fst (run lexicographic (serving (job_of (page_payload 5)) (catalog (JArray [])))))) \<and>
   (\<forall>x. LogValue x \<notin> set (fst (run lexicographic (serving (job_of (page_payload 5)) (catalog (JArray [])))))) \<and>
   snd (run lexicographic (serving (job_of (page_payload 5)) (catalog (JArray [])))) = None"
proof -
  let ?j = "job_of (page_payload 5)"
  let ?sv = "serving ?j (catalog (JArray []))"
  have 1: "receive ?sv = Some ?j" by (simp add: serving_def)
  have 2: "guard FetchThemesPayloadRuntime (payload ?j)"
    by (simp add: job_of_def page_payload_def shape_defs)
  have 3: "member (payload ?j) ''page'' = JNumber 5"
    by (simp add: job_of_def page_payload_def)
  have 4: "snd (fetchMarketplaceThemes lexicographic ?sv 5) = Inr (JArray [])"
    by (simp add: serving_def catalog_def fetchMarketplaceThemes_def results0_extensions_def
          get_def get0_def)
  show ?thesis by (rule empty_page_ends_chain [OF 1 2 3 4])
qed

subsection \<open>An invalid payload is a permanent failure\<close>

text \<open>
  Claim C6. For a received job whose payload fails the guard, the \<open>try\<close> block throws the
  Permanent error \<open>Invalid job payload.\<close>, the only acknowledgement of the job is \<open>Fail\<close>
  with that error, no catalog request is issued, and the invocation resolves.
\<close>

theorem invalid_payload_fails:
  assumes "receive sv = Some j"
    and "\<not> guard FetchThemesPayloadRuntime (payload j)"
  shows "snd (process pf sv j) = Inl (PermanentJobError ''Invalid job payload.'') \<and>
         acknowledgements j (fst (run pf sv)) =
           [Fail j (PermanentJobError ''Invalid job payload.'')] \<and>
         (\<forall>page. Fetch page \<notin> set (fst (run pf sv))) \<and>
         snd (run pf sv) = None"
  using assms run_invalid_payload [OF assms, of pf]
  by (simp add: process_def preamble_def acknowledgements_def)

text \<open>A payload with no \<open>page\<close>.\<close>

theorem invalid_payload_fails_witness:
  "snd (process lexicographic (serving (job_of (JObject [])) (catalog (JArray []))) (job_of (JObject []))) =
     Inl (PermanentJobError ''Invalid job payload.'') \<and>
   acknowledgements (job_of (JObject []))
     (fst (run lexicographic (serving (job_of (JObject [])) (catalog (JArray []))))) =
     [Fail (job_of (JObject [])) (PermanentJobError ''Invalid job payload.'')] \<and>
   (\<forall>page. Fetch page \<notin> set (fst (run lexicographic (serving (job_of (JObject [])) (catalog (JArray [])))))) \<and>
   snd (run lexicographic (serving (job_of (JObject [])) (catalog (JArray [])))) = None"
proof -
  let ?j = "job_of (JObject [])"
  let ?sv = "serving ?j (catalog (JArray []))"
  have 1: "receive ?sv = Some ?j" by (simp add: serving_def)
  have 2: "\<not> guard FetchThemesPayloadRuntime (payload ?j)"
    by (simp add: job_of_def shape_defs)
  show ?thesis by (rule invalid_payload_fails [OF 1 2])
qed

subsection \<open>A response that is not ok is retried\<close>

text \<open>
  Claim C7. For a received job whose payload passes the guard and whose catalog response
  is not \<open>ok\<close>, \<open>fetchMarketplaceThemes\<close> throws the Transient error whose message is
  \<open>Bad response: \<close> followed by the status text; the message is logged, the only
  acknowledgement of the job is \<open>Retry\<close> (so it is not failed), and the invocation
  resolves.
\<close>

theorem bad_status_retries:
  assumes "receive sv = Some j"
    and "guard FetchThemesPayloadRuntime (payload j)"
    and "member (payload j) ''page'' = JNumber page"
    and "fetch sv page = Response r"
    and "\<not> ok r"
  shows "snd (fetchMarketplaceThemes pf sv page) =
           Inl (TransientJobError (''Bad response: '' @ statusText r)) \<and>
         acknowledgements j (fst (run pf sv)) = [Retry j] \<and>
         Log (''Bad response: '' @ statusText r) \<in> set (fst (run pf sv)) \<and>
         snd (run pf sv) = None"
proof -
  have "fetch sv (the_number (member (payload j) ''page'')) = Response r"
    using assms(3,4) by simp
  from run_bad_status [OF assms(1,2) this assms(5), of pf] show ?thesis
    using assms(4,5) by (simp add: preamble_def acknowledgements_def fetchMarketplaceThemes_def)
qed

text \<open>A 503.\<close>

theorem bad_status_retries_witness:
  "snd (fetchMarketplaceThemes lexicographic
          (failing (job_of (page_payload 1)) ''Service Unavailable'') 1) =
     Inl (TransientJobError
            (''Bad response: '' @
             statusText \<lparr>ok = False, statusText = ''Service Unavailable'', json = NotJson\<rparr>)) \<and>
   acknowledgements (job_of (page_payload 1))
     (fst (run lexicographic (failing (job_of (page_payload 1)) ''Service Unavailable''))) =
     [Retry (job_of (page_payload 1))] \<and>
   Log (''Bad response: '' @
        statusText \<lparr>ok = False, statusText = ''Service Unavailable'', json = NotJson\<rparr>)
     \<in> set (fst (run lexicographic (failing (job_of (page_payload 1)) ''Service Unavailable''))) \<and>
   snd (run lexicographic (failing (job_of (page_payload 1)) ''Service Unavailable'')) = None"
proof -
  let ?j = "job_of (page_payload 1)"
  let ?sv = "failing ?j ''Service Unavailable''"
  let ?r = "\<lparr>ok = False, statusText = ''Service Unavailable'', json = NotJson\<rparr>"
  have 1: "receive ?sv = Some ?j" by (simp add: failing_def)
  have 2: "guard FetchThemesPayloadRuntime (payload ?j)"
    by (simp add: job_of_def page_payload_def shape_defs)
  have 3: "member (payload ?j) ''page'' = JNumber 1"
    by (simp add: job_of_def page_payload_def)
  have 4: "fetch ?sv 1 = Response ?r" by (simp add: failing_def)
  have 5: "\<not> ok ?r" by simp
  show ?thesis by (rule bad_status_retries [OF 1 2 3 4 5])
qed

subsection \<open>The latest version\<close>

text \<open>
  Claim C8 says that the version used is the one whose \<open>lastUpdated\<close> is
  lexicographically maximal. The sort compares with \<open>localeCompare\<close>, which follows the
  collation of the runtime and not the code units. On a platform that places the
  hyphen-minus before the plus sign, a record that passes the guard with the versions
  \<open>2018-01-01T00:00:00+01:00\<close> and \<open>2018-01-01T00:00:00-01:00\<close>: the first string is
  lexicographically below the second, and the first version is the one the callback
  uses, its link the one returned.
\<close>

theorem latest_version_counterexample:
  "guard ExtensionRuntime theme_offsets \<and>
   member theme_offsets ''versions'' =
     JArray [version ''2018-01-01T00:00:00+01:00'' [github_link ''https://github.com/e/plus''],
             version ''2018-01-01T00:00:00-01:00'' [github_link ''https://github.com/e/minus'']] \<and>
   lastUpdated (version ''2018-01-01T00:00:00+01:00'' [github_link ''https://github.com/e/plus''])
     < lastUpdated (version ''2018-01-01T00:00:00-01:00'' [github_link ''https://github.com/e/minus'']) \<and>
   index0 (JArray (Array_sort (by_lastUpdated_desc hyphen_first)
     [version ''2018-01-01T00:00:00+01:00'' [github_link ''https://github.com/e/plus''],
      version ''2018-01-01T00:00:00-01:00'' [github_link ''https://github.com/e/minus'']])) =
     version ''2018-01-01T00:00:00+01:00'' [github_link ''https://github.com/e/plus''] \<and>
   snd (snd (extract_theme hyphen_first theme_offsets)) =
     Inr [JString ''https://github.com/e/plus'']"
proof -
  have 3: "lastUpdated (version ''2018-01-01T00:00:00+01:00'' [github_link ''https://github.com/e/plus''])
     < lastUpdated (version ''2018-01-01T00:00:00-01:00'' [github_link ''https://github.com/e/minus''])"
    by (simp add: lastUpdated_def version_def)
  have 4: "index0 (JArray (Array_sort (by_lastUpdated_desc hyphen_first)
     [version ''2018-01-01T00:00:00+01:00'' [github_link ''https://github.com/e/plus''],
      version ''2018-01-01T00:00:00-01:00'' [github_link ''https://github.com/e/minus'']])) =
     version ''2018-01-01T00:00:00+01:00'' [github_link ''https://github.com/e/plus'']"
    by (simp add: theme_offsets_sorted)
  have 5: "snd (snd (extract_theme hyphen_first theme_offsets)) =
     Inr [JString ''https://github.com/e/plus'']"
    by (simp add: extract_theme_valid [OF theme_offsets_guard theme_offsets_versions]
          theme_offsets_sorted find_repository_def get_def)
       (simp add: version_def github_link_def)
  show ?thesis using theme_offsets_guard theme_offsets_versions 3 4 5 by blast
qed

text \<open>
  Claim C8 as amended. For an extension record that passes the guard and has at least two
  versions, \<open>localeCompare\<close> being a consistent comparison on their \<open>lastUpdated\<close>
  strings: the version the callback uses (the first of the sorted array) is one of the
  record's versions, its \<open>lastUpdated\<close> is a string, no version's \<open>lastUpdated\<close> is
  above it in the order of \<open>localeCompare\<close>, and the URL returned for the record is the
  value of the first property of that version under the repository-link key (none when
  it has no such property). When \<open>localeCompare\<close> orders those strings as the
  lexicographic order does, that version is the lexicographically maximal one.
\<close>

theorem latest_version_is_localeCompare_maximum:
  assumes "guard ExtensionRuntime theme"
    and "member theme ''versions'' = JArray versions"
    and "2 \<le> length versions"
    and "consistent_comparison pf (map lastUpdated versions)"
  shows "\<exists>latest older properties.
           Array_sort (by_lastUpdated_desc pf) versions = latest # older \<and>
           latest \<in> set versions \<and>
           member latest ''lastUpdated'' = JString (lastUpdated latest) \<and>
           (\<forall>v \<in> set versions.
              localeCompare pf (lastUpdated v) (lastUpdated latest) \<le> 0) \<and>
           (collates_lexicographically pf (map lastUpdated versions) \<longrightarrow>
              (\<forall>v \<in> set versions. lastUpdated v \<le> lastUpdated latest)) \<and>
           member latest ''properties'' = JArray properties \<and>
           snd (snd (extract_theme pf theme)) =
             Inr (case find (\<lambda>prop. member prop ''key'' = JString GITHUB_PROPERTY_NAME)
                            properties of
                    Some repoUrlProp \<Rightarrow> [member repoUrlProp ''value'']
                  | None \<Rightarrow> [])"
proof -
  have "versions \<noteq> []" using assms(3) by auto
  from latest_is_localeCompare_maximal [OF assms(4) this] obtain latest older where
    s: "Array_sort (by_lastUpdated_desc pf) versions = latest # older"
    and m: "latest \<in> set versions"
      "\<forall>v \<in> set versions. localeCompare pf (lastUpdated v) (lastUpdated latest) \<le> 0"
    by blast
  have "list_all (guard VersionRuntime) versions"
    using guard_Extension [OF assms(1)] assms(2) by auto
  then have g: "guard VersionRuntime latest" using m(1) by (simp add: list_all_iff)
  then obtain properties where
    l: "member latest ''lastUpdated'' = JString (lastUpdated latest)"
    and p: "member latest ''properties'' = JArray properties"
    using guard_Version [of latest] by (auto simp: lastUpdated_def)
  have x: "collates_lexicographically pf (map lastUpdated versions) \<longrightarrow>
              (\<forall>v \<in> set versions. lastUpdated v \<le> lastUpdated latest)"
  proof (intro impI ballI)
    fix v assume a: "collates_lexicographically pf (map lastUpdated versions)"
      and v: "v \<in> set versions"
    have "lastUpdated v \<in> set (map lastUpdated versions)"
      "lastUpdated latest \<in> set (map lastUpdated versions)" using v m(1) by simp_all
    then have "(localeCompare pf (lastUpdated v) (lastUpdated latest) \<le> 0) =
               (lastUpdated v \<le> lastUpdated latest)"
      using a unfolding collates_lexicographically_def list_all_iff by blast
    then show "lastUpdated v \<le> lastUpdated latest" using m(2) v by blast
  qed
  have "snd (snd (extract_theme pf theme)) =
          snd (find_repository pf (put theme ''versions'' (JArray (latest # older))) latest)"
    using s by (simp add: extract_theme_valid [OF assms(1,2)])
  then have "snd (snd (extract_theme pf theme)) =
             Inr (case find (\<lambda>prop. member prop ''key'' = JString GITHUB_PROPERTY_NAME)
                            properties of
                    Some repoUrlProp \<Rightarrow> [member repoUrlProp ''value'']
                  | None \<Rightarrow> [])"
    using find_repository_of_version [OF g p] by simp
  then show ?thesis using s m l p x by blast
qed

text \<open>The record with versions of January and February 2018, in that order.\<close>

theorem latest_version_is_localeCompare_maximum_witness:
  "\<exists>latest older properties.
     Array_sort (by_lastUpdated_desc lexicographic)
       [version ''2018-01-01'' [],
        version ''2018-02-01'' [github_link ''https://github.com/a/b'']] = latest # older \<and>
     latest = version ''2018-02-01'' [github_link ''https://github.com/a/b''] \<and>
     member latest ''lastUpdated'' = JString (lastUpdated latest) \<and>
     localeCompare lexicographic (lastUpdated (version ''2018-01-01'' [])) (lastUpdated latest) \<le> 0 \<and>
     lastUpdated (version ''2018-01-01'' []) \<le> lastUpdated latest \<and>
     member latest ''properties'' = JArray properties \<and>
     snd (snd (extract_theme lexicographic theme_linked)) =
       Inr [JString ''https://github.com/a/b'']"
proof -
  let ?vs = "[version ''2018-01-01'' [],
              version ''2018-02-01'' [github_link ''https://github.com/a/b'']]"
  have 3: "2 \<le> length ?vs" by simp
  from latest_version_is_localeCompare_maximum
         [OF theme_linked_guard theme_linked_versions 3 theme_linked_consistent]
  obtain latest older properties where
    s: "Array_sort (by_lastUpdated_desc lexicographic) ?vs = latest # older"
    and l: "member latest ''lastUpdated'' = JString (lastUpdated latest)"
    and m: "\<forall>v \<in> set ?vs. localeCompare lexicographic (lastUpdated v) (lastUpdated latest) \<le> 0"
    and c: "collates_lexicographically lexicographic (map lastUpdated ?vs) \<longrightarrow>
              (\<forall>v \<in> set ?vs. lastUpdated v \<le> lastUpdated latest)"
    and p: "member latest ''properties'' = JArray properties"
    and x: "snd (snd (extract_theme lexicographic theme_linked)) =
             Inr (case find (\<lambda>prop. member prop ''key'' = JString GITHUB_PROPERTY_NAME)
                            properties of
                    Some repoUrlProp \<Rightarrow> [member repoUrlProp ''value'']
                  | None \<Rightarrow> [])"
    by blast
  have e: "latest = version ''2018-02-01'' [github_link ''https://github.com/a/b'']"
    using s theme_linked_sorted by simp
  then have "properties = [github_link ''https://github.com/a/b'']"
    using p by (simp add: version_def)
  then have u: "snd (snd (extract_theme lexicographic theme_linked)) =
       Inr [JString ''https://github.com/a/b'']"
    using x by (simp add: github_link_def)
  have "localeCompare lexicographic (lastUpdated (version ''2018-01-01'' [])) (lastUpdated latest) \<le> 0"
    using m by simp
  moreover have "lastUpdated (version ''2018-01-01'' []) \<le> lastUpdated latest"
    using c theme_linked_collates by simp
  ultimately show ?thesis using s e l p u by blast
qed

subsection \<open>Records that give no URL\<close>

text \<open>
  Claim C9. For a record of the page that fails the guard, or that passes it and whose
  latest version has no property under the repository-link key: the callback logs one
  line, pushes no URL and throws nothing, and the URLs returned (or the error thrown) by
  \<open>extractRepositories\<close> on the page are those of the page without that record, so the
  records after it are processed as if it were not there.
\<close>

theorem skipped_records_do_not_stop_extraction:
  assumes "\<not> guard ExtensionRuntime theme \<or> no_repository_link pf theme"
  shows "(\<exists>theme' line. extract_theme pf theme = (theme', [line], Inr [])) \<and>
         snd (snd (extractRepositories pf (JArray (before @ theme # after)))) =
         snd (snd (extractRepositories pf (JArray (before @ after))))"
proof -
  from extract_theme_skipped [OF assms] obtain theme' line where
    e: "extract_theme pf theme = (theme', [line], Inr [])" by blast
  have "outcome (forEach_theme pf (before @ theme # after) ([], [], [])) =
        outcome (forEach_theme pf (before @ after) ([], [], []))"
    by (rule outcome_forEach_append_skipped [OF e])
  then show ?thesis using e by (simp add: extractRepositories_outcome)
qed

text \<open>
  A malformed record and a record with no link, before a record with a link: the link
  of the third is returned.
\<close>

theorem skipped_records_do_not_stop_extraction_witness:
  "snd (snd (extractRepositories lexicographic
               (JArray [theme_malformed, theme_unlinked, theme_linked]))) =
     Inr [JString ''https://github.com/a/b'']"
proof -
  have "snd (snd (extractRepositories lexicographic (JArray ([] @ theme_malformed # [theme_unlinked, theme_linked])))) =
        snd (snd (extractRepositories lexicographic (JArray ([] @ [theme_unlinked, theme_linked]))))"
    using skipped_records_do_not_stop_extraction [of theme_malformed lexicographic "[]" "[theme_unlinked, theme_linked]"]
      theme_malformed_guard by blast
  moreover have "snd (snd (extractRepositories lexicographic (JArray ([] @ theme_unlinked # [theme_linked])))) =
        snd (snd (extractRepositories lexicographic (JArray ([] @ [theme_linked]))))"
    using skipped_records_do_not_stop_extraction [of theme_unlinked lexicographic "[]" "[theme_linked]"]
      theme_unlinked_no_link by blast
  ultimately show ?thesis using linked_page_urls by simp
qed

subsection \<open>Extraction sorts the caller's versions\<close>

text \<open>
  Claim C10. When \<open>extractRepositories\<close> returns, the caller's list has the same length,
  and each record of it that passes the guard is the record it was with its \<open>versions\<close>
  array replaced by the sorted one: a permutation of the versions the source returned,
  in descending order of \<open>lastUpdated\<close> when \<open>localeCompare\<close> orders those strings
  lexicographically.
\<close>

theorem extraction_sorts_versions_in_place:
  assumes "snd (snd (extractRepositories pf (JArray themes))) = Inr repositories"
    and "i < length themes"
    and "guard ExtensionRuntime (themes ! i)"
    and "member (themes ! i) ''versions'' = JArray versions"
  shows "\<exists>themes'.
           fst (extractRepositories pf (JArray themes)) = JArray themes' \<and>
           length themes' = length themes \<and>
           themes' ! i =
             put (themes ! i) ''versions'' (JArray (Array_sort (by_lastUpdated_desc pf) versions)) \<and>
           member (themes' ! i) ''versions'' =
             JArray (Array_sort (by_lastUpdated_desc pf) versions) \<and>
           mset (Array_sort (by_lastUpdated_desc pf) versions) = mset versions \<and>
           (collates_lexicographically pf (map lastUpdated versions) \<longrightarrow>
              sorted_wrt (\<lambda>a b. lastUpdated b \<le> lastUpdated a)
                (Array_sort (by_lastUpdated_desc pf) versions))"
proof -
  let ?sorted = "Array_sort (by_lastUpdated_desc pf) versions"
  let ?themes' = "map (\<lambda>t. fst (extract_theme pf t)) themes"
  have a: "fst (extractRepositories pf (JArray themes)) = JArray ?themes'"
    by (rule extractRepositories_returns [OF assms(1)])
  have b: "?themes' ! i = put (themes ! i) ''versions'' (JArray ?sorted)"
    using assms(2) by (simp add: extract_theme_valid [OF assms(3,4)])
  obtain fs where "themes ! i = JObject fs" using guard_Extension [OF assms(3)] by blast
  then have c: "member (?themes' ! i) ''versions'' = JArray ?sorted"
    using b member_put by simp
  have d: "mset ?sorted = mset versions" by (rule mset_Array_sort)
  have e: "collates_lexicographically pf (map lastUpdated versions) \<longrightarrow>
              sorted_wrt (\<lambda>a b. lastUpdated b \<le> lastUpdated a) ?sorted"
    using sorted_versions by blast
  have "length ?themes' = length themes" by simp
  with a b c d e show ?thesis by blast
qed

text \<open>
  The record with versions of January and February 2018 comes back with February first:
  the caller's list has changed.
\<close>

theorem extraction_sorts_versions_in_place_witness:
  "fst (extractRepositories lexicographic (JArray [theme_linked])) =
     JArray [extension ''a''
               [version ''2018-02-01'' [github_link ''https://github.com/a/b''],
                version ''2018-01-01'' []]] \<and>
   fst (extractRepositories lexicographic (JArray [theme_linked])) \<noteq> JArray [theme_linked]"
proof -
  let ?vs = "[version ''2018-01-01'' [],
              version ''2018-02-01'' [github_link ''https://github.com/a/b'']]"
  have 2: "0 < length [theme_linked]" by simp
  have 3: "guard ExtensionRuntime ([theme_linked] ! 0)" using theme_linked_guard by simp
  have 4: "member ([theme_linked] ! 0) ''versions'' = JArray ?vs"
    using theme_linked_versions by simp
  from extraction_sorts_versions_in_place [OF linked_page_urls 2 3 4]
  obtain themes' where
    a: "fst (extractRepositories lexicographic (JArray [theme_linked])) = JArray themes'"
    and b: "length themes' = length [theme_linked]"
    and c: "themes' ! 0 =
      put ([theme_linked] ! 0) ''versions''
        (JArray (Array_sort (by_lastUpdated_desc lexicographic) ?vs))"
    by blast
  have "themes' = [themes' ! 0]" using b by (cases themes') simp_all
  then have "themes' =
     [extension ''a''
        [version ''2018-02-01'' [github_link ''https://github.com/a/b''],
         version ''2018-01-01'' []]]"
    using c theme_linked_sorted by (simp add: theme_linked_def extension_def)
  then show ?thesis using a by (simp add: theme_linked_def extension_def version_def)
qed

end
